theory Spec2Isabelle
  imports Complex_Main
begin

section \<open>Values, errors and promises\<close>

text \<open>
  The engine of \<^verbatim>\<open>grit.ts\<close> handles values of any JavaScript type: what the operation
  returns, what it throws, and what the engine throws itself. A class is known by its
  identity (two classes of the same name differ), so a class is a tag, not a name.
\<close>

datatype cls = ErrorClass | GritErrorClass | TimeoutErrorClass | DOMExceptionClass | UserClass nat

text \<open>
  The default message of a timeout error embeds the number of milliseconds; it is kept
  as a constructor of its own instead of a rendering of the number.
\<close>

datatype message = Text string | TimedOutAfter real

text \<open>
  An object carries the class that \<^verbatim>\<open>error.constructor\<close> gives, or none for an object
  without a prototype. A number is a real that stands for a finite double; NaN and the
  infinities are outside the model. Comparisons are exact on doubles and are those of the
  reals. The operations that round (the product, the sum, the difference and
  \<^verbatim>\<open>Math.pow\<close>) are not those of the reals: they are parameters of the environment of a
  run, and nothing is assumed about what they return.
\<close>

datatype jsval = JNull | JUndefined | JBool bool | JNum real | JStr string
  | JObj "cls option" message

fun truthy :: "jsval \<Rightarrow> bool" where
  "truthy JNull = False"
| "truthy JUndefined = False"
| "truthy (JBool b) = b"
| "truthy (JNum x) = (x \<noteq> 0)"
| "truthy (JStr s) = (s \<noteq> [])"
| "truthy (JObj c m) = True"

fun typeof_object :: "jsval \<Rightarrow> bool" where
  "typeof_object JNull = True"
| "typeof_object (JObj c m) = True"
| "typeof_object v = False"

fun constructor_of :: "jsval \<Rightarrow> cls option" where
  "constructor_of (JObj c m) = c"
| "constructor_of v = None"

definition GritError :: "string \<Rightarrow> jsval" where
  "GritError m = JObj (Some GritErrorClass) (Text m)"

definition TimeoutError :: "message \<Rightarrow> jsval" where
  "TimeoutError m = JObj (Some TimeoutErrorClass) m"

definition AbortError :: jsval where
  "AbortError = JObj (Some DOMExceptionClass) (Text ''This operation was aborted.'')"

text \<open>
  A promise as the engine sees it when it stops waiting: resolved, rejected, or still
  pending. An operation that throws synchronously and one that returns a rejected promise
  are both \<open>Rejected\<close>: every call site of the source treats them alike.
\<close>

datatype 'a promise = Resolved 'a | Rejected jsval | Pending

section \<open>Configuration (types.ts)\<close>

type_synonym addr = nat

record abort_signal =
  aborted :: bool
  reason :: jsval

text \<open>
  A delay array is a mutable object that the configuration holds by reference: the
  configuration stores its address, the contents live in the store of arrays.
  An abort signal is an object of the caller's world, read through a function of the world.
\<close>

datatype delay_config =
    DelayNumber real
  | DelayArray addr
  | DelayExponential "real option" real
  | DelayRandom "real option" real real

datatype 'w timeout_config =
    TimeoutNumber real
  | TimeoutObject real "string option" "('w \<Rightarrow> abort_signal) option"

text \<open>
  The operation and the fallback are JavaScript functions with effects: they take the
  caller's world and return it changed, next to the promise they answer with. The first
  argument of the operation is the attempt number. Retry counts are integers, as the
  specification has them; a missing count is \<open>None\<close>.
\<close>

type_synonym 'w FunctionToExecute = "nat \<Rightarrow> 'w \<Rightarrow> jsval promise \<times> 'w"
type_synonym 'w FallbackFunction = "jsval \<Rightarrow> nat \<Rightarrow> 'w \<Rightarrow> jsval promise \<times> 'w"

record 'w grit_props =
  props_retryCount :: "int option"
  props_fallback :: "'w FallbackFunction option"
  props_onlyErrors :: "cls list option"
  props_skipErrors :: "cls list option"
  props_delay :: "delay_config option"
  props_timeout :: "'w timeout_config option"
  props_logging :: "bool option"

section \<open>Validation (utils.ts)\<close>

text \<open>
  \<^verbatim>\<open>validateGritConfig\<close>, lines 143 to 163: the checks of the timeout, reached only when
  the delay checks did not return. \<^verbatim>\<open>if (timeoutConfig)\<close> is false for the number 0.
\<close>

fun validateTimeout :: "'w timeout_config option \<Rightarrow> jsval + unit" where
  "validateTimeout None = Inr ()"
| "validateTimeout (Some (TimeoutNumber t)) =
     (if t = 0 then Inr ()
      else if t \<le> 0 then Inl (GritError ''timeout must be greater than 0'')
      else Inr ())"
| "validateTimeout (Some (TimeoutObject t m s)) =
     (if t \<le> 0 then Inl (GritError ''timeout must be greater than 0'')
      else Inr ())"

text \<open>
  \<^verbatim>\<open>validateGritConfig\<close>, lines 93 to 141. \<open>Inl\<close> is the \<^verbatim>\<open>GritError\<close> thrown. The three
  branches for a number, an array and an object with \<^verbatim>\<open>delay\<close> end in \<^verbatim>\<open>return\<close>, so the
  timeout is validated only with a random delay, with no delay, and with the number 0,
  which \<^verbatim>\<open>if (delayConfig)\<close> takes for no delay.
\<close>

fun validateGritConfig ::
  "int option \<Rightarrow> delay_config option \<Rightarrow> 'w timeout_config option \<Rightarrow> (addr \<Rightarrow> real list)
     \<Rightarrow> jsval + unit" where
  "validateGritConfig None delayConfig timeoutConfig arrs =
     Inl (GritError ''Missing retry config (Grit.retry(<count>))'')"
| "validateGritConfig (Some retryCount) None timeoutConfig arrs = validateTimeout timeoutConfig"
| "validateGritConfig (Some retryCount) (Some (DelayNumber d)) timeoutConfig arrs =
     (if d = 0 then validateTimeout timeoutConfig
      else if d < 0 then Inl (GritError ''delay must be greater than 0'')
      else Inr ())"
| "validateGritConfig (Some retryCount) (Some (DelayArray a)) timeoutConfig arrs =
     (if int (length (arrs a)) \<noteq> retryCount
      then Inl (GritError ''Delay array length must be equal to retry count'')
      else if list_ex (\<lambda>delay. delay \<le> 0) (arrs a)
      then Inl (GritError ''delay must be greater than 0'')
      else Inr ())"
| "validateGritConfig (Some retryCount) (Some (DelayExponential factor d)) timeoutConfig arrs =
     (if d \<le> 0 then Inl (GritError ''delay must be greater than 0'')
      else Inr ())"
| "validateGritConfig (Some retryCount) (Some (DelayRandom factor minDelay maxDelay)) timeoutConfig arrs =
     (if minDelay = 0 then Inl (GritError ''minDelay must be a number'')
      else if maxDelay = 0 then Inl (GritError ''maxDelay must be a number'')
      else if minDelay \<ge> maxDelay then Inl (GritError ''minDelay must be less than maxDelay'')
      else if minDelay \<le> 0 then Inl (GritError ''minDelay must be greater than 0'')
      else if maxDelay \<le> 0 then Inl (GritError ''maxDelay must be greater than 0'')
      else validateTimeout timeoutConfig)"

section \<open>The engine (grit.ts)\<close>

text \<open>
  The fields of class \<^verbatim>\<open>Grit\<close>. The constructor validates before any method runs, so an
  engine that exists has a retry count.
\<close>

record 'w grit =
  retryCount :: int
  attempts :: nat
  retries :: nat
  onlyErrors :: "cls list"
  skipErrors :: "cls list"
  delay :: "delay_config option"
  fallback :: "'w FallbackFunction option"
  timeout :: "'w timeout_config option"
  logging :: bool

text \<open>
  The constructor, lines 21 to 32: \<open>Inl\<close> is the error thrown. The last \<open>None\<close> branch is
  never taken, validation has refused a missing retry count before.
\<close>

definition new_Grit :: "'w grit_props \<Rightarrow> (addr \<Rightarrow> real list) \<Rightarrow> jsval + 'w grit" where
  "new_Grit props arrs =
     (case validateGritConfig (props_retryCount props) (props_delay props) (props_timeout props) arrs of
        Inl err \<Rightarrow> Inl err
      | Inr u \<Rightarrow>
          (case props_retryCount props of
             None \<Rightarrow> Inl (GritError ''Missing retry config (Grit.retry(<count>))'')
           | Some n \<Rightarrow>
               Inr \<lparr> retryCount = n, attempts = 1, retries = 0,
                     onlyErrors = (case props_onlyErrors props of None \<Rightarrow> [] | Some l \<Rightarrow> l),
                     skipErrors = (case props_skipErrors props of None \<Rightarrow> [] | Some l \<Rightarrow> l),
                     delay = props_delay props,
                     fallback = props_fallback props,
                     timeout = props_timeout props,
                     logging = (case props_logging props of None \<Rightarrow> False | Some b \<Rightarrow> b) \<rparr>))"

subsection \<open>The environment of a run\<close>

text \<open>
  What a run can observe and change outside the engine: the store of delay arrays, the
  caller's world (the state the operation and the fallback close over, cancellation
  signals included), the values \<^verbatim>\<open>Math.random\<close> returns, and a trace of what the engine
  did to the outside: calls of the operation with the attempt number passed, calls of the
  fallback with both arguments, the waits of \<^verbatim>\<open>#backoff\<close> and the lines logged.
  The world changes only through calls of the operation and of the fallback.
  The environment also holds the arithmetic of the platform on doubles: \<open>js_mul\<close>,
  \<open>js_add\<close> and \<open>js_sub\<close> are \<^verbatim>\<open>*\<close>, \<^verbatim>\<open>+\<close> and \<^verbatim>\<open>-\<close>, and \<open>js_pow\<close> is \<^verbatim>\<open>Math.pow\<close> with
  an integer exponent. They round, and a product of two numbers other than 0 can be 0.
\<close>

datatype event = Invoke nat | Wait real | FallbackCall jsval nat | ConsoleDebug real

record 'w env =
  arrays :: "addr \<Rightarrow> real list"
  world :: 'w
  rand_source :: "nat \<Rightarrow> real"
  rand_drawn :: nat
  js_mul :: "real \<Rightarrow> real \<Rightarrow> real"
  js_add :: "real \<Rightarrow> real \<Rightarrow> real"
  js_sub :: "real \<Rightarrow> real \<Rightarrow> real"
  js_pow :: "real \<Rightarrow> int \<Rightarrow> real"
  trace :: "event list"

definition call :: "'w FunctionToExecute \<Rightarrow> nat \<Rightarrow> 'w env \<Rightarrow> jsval promise \<times> 'w env" where
  "call fn n e =
     (case fn n (world e) of
        (p, w) \<Rightarrow> (p, e\<lparr>world := w, trace := trace e @ [Invoke n]\<rparr>))"

definition call_fallback ::
  "'w FallbackFunction \<Rightarrow> jsval \<Rightarrow> nat \<Rightarrow> 'w env \<Rightarrow> jsval promise \<times> 'w env" where
  "call_fallback fb err n e =
     (case fb err n (world e) of
        (p, w) \<Rightarrow> (p, e\<lparr>world := w, trace := trace e @ [FallbackCall err n]\<rparr>))"

subsection \<open>Delays\<close>

text \<open>\<^verbatim>\<open>factor || 1\<close>: an absent factor and the factor 0 both give 1.\<close>

fun factor_or_1 :: "real option \<Rightarrow> real" where
  "factor_or_1 None = 1"
| "factor_or_1 (Some f) = (if f = 0 then 1 else f)"

text \<open>
  Line 42, \<^verbatim>\<open>initialDelay * Math.pow(factor || 1, this.attempts - 2)\<close>, and lines 45 and
  46, \<^verbatim>\<open>Math.random() * (maxDelay - minDelay) + minDelay\<close> scaled by
  \<^verbatim>\<open>Math.pow(factor, this.attempts - 2)\<close> when the factor is truthy. \<open>k\<close> is the exponent
  and \<open>r\<close> the random number drawn. Every operation is the platform's.
\<close>

definition exponentialDelay :: "'w env \<Rightarrow> real option \<Rightarrow> real \<Rightarrow> int \<Rightarrow> real" where
  "exponentialDelay e factor initialDelay k =
     js_mul e initialDelay (js_pow e (factor_or_1 factor) k)"

definition jitterDelay :: "'w env \<Rightarrow> real option \<Rightarrow> real \<Rightarrow> real \<Rightarrow> real \<Rightarrow> int \<Rightarrow> real" where
  "jitterDelay e factor minDelay maxDelay r k =
     (let randomDelay = js_add e (js_mul e r (js_sub e maxDelay minDelay)) minDelay
      in (case factor of
            None \<Rightarrow> randomDelay
          | Some f \<Rightarrow> if f = 0 then randomDelay else js_mul e randomDelay (js_pow e f k)))"

text \<open>
  The getter \<^verbatim>\<open>#currentDelay\<close>, lines 34 to 55. \<open>Inl\<close> is the \<^verbatim>\<open>GritError\<close> thrown when
  the delay is undefined or 0. \<^verbatim>\<open>shift\<close> removes the first entry of the array in the
  store and gives undefined on the empty array. The exponent \<^verbatim>\<open>attempts - 2\<close> is an
  integer, negative for \<^verbatim>\<open>attempts = 1\<close>. \<open>raw_delay\<close> is lines 35 to 47.
\<close>

definition raw_delay :: "'w grit \<Rightarrow> 'w env \<Rightarrow> real option \<times> 'w env" where
  "raw_delay g e =
     (case delay g of
        None \<Rightarrow> (None, e)
      | Some (DelayNumber d) \<Rightarrow> (Some d, e)
      | Some (DelayArray a) \<Rightarrow>
          (case arrays e a of
             [] \<Rightarrow> (None, e)
           | x # xs \<Rightarrow> (Some x, e\<lparr>arrays := (arrays e)(a := xs)\<rparr>))
      | Some (DelayExponential factor initialDelay) \<Rightarrow>
          (Some (exponentialDelay e factor initialDelay (int (attempts g) - 2)), e)
      | Some (DelayRandom factor minDelay maxDelay) \<Rightarrow>
          (Some (jitterDelay e factor minDelay maxDelay (rand_source e (rand_drawn e))
                   (int (attempts g) - 2)),
           e\<lparr>rand_drawn := Suc (rand_drawn e)\<rparr>))"

definition currentDelay :: "'w grit \<Rightarrow> 'w env \<Rightarrow> (jsval + real) \<times> 'w env" where
  "currentDelay g e =
     (case raw_delay g e of
        (None, e1) \<Rightarrow> (Inl (GritError ''No delay. Should never happen.''), e1)
      | (Some d, e1) \<Rightarrow>
          if d = 0 then (Inl (GritError ''No delay. Should never happen.''), e1)
          else if logging g then (Inr d, e1\<lparr>trace := trace e1 @ [ConsoleDebug d]\<rparr>)
          else (Inr d, e1))"

text \<open>
  \<^verbatim>\<open>#backoff\<close>, lines 57 to 59: the getter runs inside the promise's executor, so its
  error rejects the promise; otherwise the promise resolves after the wait.
\<close>

definition backoff :: "'w grit \<Rightarrow> 'w env \<Rightarrow> unit promise \<times> 'w env" where
  "backoff g e =
     (case currentDelay g e of
        (Inl err, e1) \<Rightarrow> (Rejected err, e1)
      | (Inr d, e1) \<Rightarrow> (Resolved (), e1\<lparr>trace := trace e1 @ [Wait d]\<rparr>))"

subsection \<open>One attempt under a timeout\<close>

text \<open>
  \<^verbatim>\<open>getTimeoutConfig\<close> of utils.ts; \<^verbatim>\<open>message || default\<close> takes the default for the
  empty string too.
\<close>

fun getTimeoutConfig ::
  "'w timeout_config option \<Rightarrow> jsval + (real \<times> message \<times> ('w \<Rightarrow> abort_signal) option)" where
  "getTimeoutConfig (Some (TimeoutNumber t)) = Inr (t, TimedOutAfter t, None)"
| "getTimeoutConfig (Some (TimeoutObject t m s)) =
     Inr (t, (case m of None \<Rightarrow> TimedOutAfter t
                      | Some txt \<Rightarrow> if txt = [] then TimedOutAfter t else Text txt), s)"
| "getTimeoutConfig None = Inl (GritError ''Invalid timeout config'')"

text \<open>\<^verbatim>\<open>getAbortedReason\<close>, line 6: \<^verbatim>\<open>??\<close> replaces null and undefined only.\<close>

definition getAbortedReason :: "abort_signal \<Rightarrow> jsval" where
  "getAbortedReason signal =
     (if reason signal = JNull \<or> reason signal = JUndefined then AbortError else reason signal)"

text \<open>
  \<^verbatim>\<open>#withTimeout\<close>, lines 61 to 96, as the promise it returns has settled when it is
  awaited. A signal already aborted rejects before the operation is called. Otherwise the
  operation is called, and three parties race. The operation's answer \<open>Pending\<close> stands
  for a call that has not settled when the timer fires; the world the call returns is the
  world at the moment the race is decided, so a signal found aborted there has fired first
  and its listener has rejected the promise. An error thrown by \<^verbatim>\<open>getTimeoutConfig\<close>
  is thrown inside the \<^verbatim>\<open>try\<close> of \<^verbatim>\<open>#execute\<close> and is a failure of the attempt.
\<close>

definition race :: "message \<Rightarrow> jsval promise \<Rightarrow> jsval promise" where
  "race message p =
     (case p of
        Pending \<Rightarrow> Rejected (TimeoutError message)
      | Resolved v \<Rightarrow> Resolved v
      | Rejected err \<Rightarrow> Rejected err)"

definition withTimeout :: "'w grit \<Rightarrow> 'w FunctionToExecute \<Rightarrow> 'w env \<Rightarrow> jsval promise \<times> 'w env" where
  "withTimeout g fn e =
     (case getTimeoutConfig (timeout g) of
        Inl err \<Rightarrow> (Rejected err, e)
      | Inr (t, message, signal) \<Rightarrow>
          (case signal of
             None \<Rightarrow> (case call fn (attempts g) e of (p, e1) \<Rightarrow> (race message p, e1))
           | Some s \<Rightarrow>
               if aborted (s (world e)) then (Rejected (getAbortedReason (s (world e))), e)
               else
                 (case call fn (attempts g) e of
                    (p, e1) \<Rightarrow>
                      if aborted (s (world e1))
                      then (Rejected (getAbortedReason (s (world e1))), e1)
                      else (race message p, e1))))"

subsection \<open>The retry loop\<close>

text \<open>
  The truth values of \<^verbatim>\<open>this.timeout\<close> and \<^verbatim>\<open>this.delay\<close> in a condition: undefined and
  the number 0 are false, arrays (the empty one too) and objects are true.
\<close>

fun timeout_truthy :: "'w timeout_config option \<Rightarrow> bool" where
  "timeout_truthy None = False"
| "timeout_truthy (Some (TimeoutNumber t)) = (t \<noteq> 0)"
| "timeout_truthy (Some (TimeoutObject t m s)) = True"

fun delay_truthy :: "delay_config option \<Rightarrow> bool" where
  "delay_truthy None = False"
| "delay_truthy (Some (DelayNumber d)) = (d \<noteq> 0)"
| "delay_truthy (Some c) = True"

text \<open>The body of the \<^verbatim>\<open>try\<close>, lines 100 to 102.\<close>

definition execute_try :: "'w grit \<Rightarrow> 'w FunctionToExecute \<Rightarrow> 'w env \<Rightarrow> jsval promise \<times> 'w env" where
  "execute_try g fn e =
     (if timeout_truthy (timeout g) then withTimeout g fn e else call fn (attempts g) e)"

text \<open>
  Lines 110 to 116: the error is classified only if it is truthy, an object, and has a
  constructor; then \<^verbatim>\<open>skipErrors\<close> is consulted, then \<^verbatim>\<open>onlyErrors\<close>. True means the
  error is thrown on without a retry.
\<close>

definition rethrown :: "'w grit \<Rightarrow> jsval \<Rightarrow> bool" where
  "rethrown g err =
     (case (if truthy err \<and> typeof_object err then constructor_of err else None) of
        None \<Rightarrow> False
      | Some c \<Rightarrow>
          if skipErrors g \<noteq> [] \<and> c \<in> set (skipErrors g) then True
          else if onlyErrors g \<noteq> [] \<and> c \<notin> set (onlyErrors g) then True
          else False)"

text \<open>Lines 118 and 119: both counters go up by one.\<close>

definition retried :: "'w grit \<Rightarrow> 'w grit" where
  "retried g = g\<lparr>attempts := Suc (attempts g), retries := Suc (retries g)\<rparr>"

text \<open>
  \<^verbatim>\<open>#execute\<close>, lines 98 to 125. The result is the settled promise, the engine with its
  counters as the run left them, and the environment. A promise that stays pending is
  returned as \<open>Pending\<close>: without a timeout the engine waits for the operation for ever.
\<close>

function execute ::
  "'w grit \<Rightarrow> 'w FunctionToExecute \<Rightarrow> 'w env \<Rightarrow> jsval promise \<times> 'w grit \<times> 'w env" where
  "execute g fn e =
     (case execute_try g fn e of
        (Resolved v, e1) \<Rightarrow> (Resolved v, g, e1)
      | (Pending, e1) \<Rightarrow> (Pending, g, e1)
      | (Rejected err, e1) \<Rightarrow>
          if int (retries g) \<ge> retryCount g then
            (case fallback g of
               Some fb \<Rightarrow> (case call_fallback fb err (attempts g) e1 of (p, e2) \<Rightarrow> (p, g, e2))
             | None \<Rightarrow> (Rejected err, g, e1))
          else if rethrown g err then (Rejected err, g, e1)
          else
            (let g1 = retried g in
             if delay_truthy (delay g1) then
               (case backoff g1 e1 of
                  (Resolved u, e2) \<Rightarrow> execute g1 fn e2
                | (Rejected err2, e2) \<Rightarrow> (Rejected err2, g1, e2)
                | (Pending, e2) \<Rightarrow> (Pending, g1, e2))
             else execute g1 fn e1))"
  by pat_completeness auto
termination
  by (relation "measure (\<lambda>(g, fn, e). nat (retryCount g - int (retries g)))") (auto simp: retried_def)

declare execute.simps [simp del]

text \<open>\<^verbatim>\<open>attempt\<close> and \<^verbatim>\<open>safeAttempt\<close>, lines 127 to 138.\<close>

record safe_result =
  result :: jsval
  error :: jsval

definition attempt ::
  "'w grit \<Rightarrow> 'w FunctionToExecute \<Rightarrow> 'w env \<Rightarrow> jsval promise \<times> 'w grit \<times> 'w env" where
  "attempt g fn e = execute g fn e"

definition safeAttempt ::
  "'w grit \<Rightarrow> 'w FunctionToExecute \<Rightarrow> 'w env \<Rightarrow> safe_result promise \<times> 'w grit \<times> 'w env" where
  "safeAttempt g fn e =
     (case execute g fn e of
        (Resolved v, g1, e1) \<Rightarrow> (Resolved \<lparr>result = v, error = JNull\<rparr>, g1, e1)
      | (Rejected err, g1, e1) \<Rightarrow> (Resolved \<lparr>result = JNull, error = err\<rparr>, g1, e1)
      | (Pending, g1, e1) \<Rightarrow> (Pending, g1, e1))"

section \<open>The builder (builder.ts)\<close>

text \<open>
  The fields of class \<^verbatim>\<open>GritBuilder\<close>: \<^verbatim>\<open>_onlyErrors\<close>, \<^verbatim>\<open>_skipErrors\<close>, \<^verbatim>\<open>$delay\<close>,
  \<^verbatim>\<open>$timeout\<close> and \<^verbatim>\<open>$fallback\<close> carry the prefix \<open>b_\<close> here. The field \<^verbatim>\<open>fn\<close> is never
  read and is left out.
\<close>

record 'w grit_builder =
  b_retryCount :: "int option"
  b_onlyErrors :: "cls list"
  b_skipErrors :: "cls list"
  b_delay :: "delay_config option"
  b_timeout :: "'w timeout_config option"
  b_fallback :: "'w FallbackFunction option"
  b_logging :: bool

text \<open>
  \<^verbatim>\<open>Grit.retry\<close>, which is the builder's constructor, and the setters. A builder is one
  mutable object: each setter assigns one field and returns \<^verbatim>\<open>this\<close>, there is no copy
  (\<^verbatim>\<open>withFallback\<close> returns the same object under another static type). The object is
  passed here as its state: a setter takes the state of the builder before the call and
  returns the state of that same builder after it. The state before the call does not
  exist any more in the source, so it must not be used again: every reference to the
  builder sees the state returned last.
\<close>

definition retry :: "int \<Rightarrow> 'w grit_builder" where
  "retry n = \<lparr> b_retryCount = Some n, b_onlyErrors = [], b_skipErrors = [], b_delay = None,
               b_timeout = None, b_fallback = None, b_logging = False \<rparr>"

definition withDelay :: "delay_config \<Rightarrow> 'w grit_builder \<Rightarrow> 'w grit_builder" where
  "withDelay config b = b\<lparr>b_delay := Some config\<rparr>"

definition withTimeout_b :: "'w timeout_config \<Rightarrow> 'w grit_builder \<Rightarrow> 'w grit_builder" where
  "withTimeout_b config b = b\<lparr>b_timeout := Some config\<rparr>"

definition withFallback :: "'w FallbackFunction \<Rightarrow> 'w grit_builder \<Rightarrow> 'w grit_builder" where
  "withFallback fb b = b\<lparr>b_fallback := Some fb\<rparr>"

definition withLogging :: "bool \<Rightarrow> 'w grit_builder \<Rightarrow> 'w grit_builder" where
  "withLogging enabled b = b\<lparr>b_logging := enabled\<rparr>"

definition onlyErrors_b :: "cls list \<Rightarrow> 'w grit_builder \<Rightarrow> 'w grit_builder" where
  "onlyErrors_b errors b = b\<lparr>b_onlyErrors := errors\<rparr>"

definition skipErrors_b :: "cls list \<Rightarrow> 'w grit_builder \<Rightarrow> 'w grit_builder" where
  "skipErrors_b errors b = b\<lparr>b_skipErrors := errors\<rparr>"

text \<open>
  \<^verbatim>\<open>#build\<close>, lines 45 to 55: every field is passed as it is, the delay array by its
  address. The constructor reads the array in the store as it is at that moment.
\<close>

definition build :: "'w grit_builder \<Rightarrow> (addr \<Rightarrow> real list) \<Rightarrow> jsval + 'w grit" where
  "build b arrs =
     new_Grit \<lparr> props_retryCount = b_retryCount b,
                props_fallback = b_fallback b,
                props_onlyErrors = Some (b_onlyErrors b),
                props_skipErrors = Some (b_skipErrors b),
                props_delay = b_delay b,
                props_timeout = b_timeout b,
                props_logging = Some (b_logging b) \<rparr> arrs"

text \<open>
  \<^verbatim>\<open>attempt\<close> and \<^verbatim>\<open>safeAttempt\<close> of the builder, lines 63 to 77. Neither is an async
  function: an error of the constructor is thrown to the caller (\<open>Inl\<close>), not returned
  as a rejected promise.
\<close>

definition builder_attempt ::
  "'w grit_builder \<Rightarrow> 'w FunctionToExecute \<Rightarrow> 'w env \<Rightarrow> (jsval + jsval promise) \<times> 'w env" where
  "builder_attempt b fn e =
     (case build b (arrays e) of
        Inl err \<Rightarrow> (Inl err, e)
      | Inr g \<Rightarrow> (case attempt g fn e of (p, g1, e1) \<Rightarrow> (Inr p, e1)))"

definition builder_safeAttempt ::
  "'w grit_builder \<Rightarrow> 'w FunctionToExecute \<Rightarrow> 'w env \<Rightarrow> (jsval + safe_result promise) \<times> 'w env" where
  "builder_safeAttempt b fn e =
     (case build b (arrays e) of
        Inl err \<Rightarrow> (Inl err, e)
      | Inr g \<Rightarrow> (case safeAttempt g fn e of (p, g1, e1) \<Rightarrow> (Inr p, e1)))"

section \<open>Notions used to state the properties\<close>

text \<open>What a trace says: the attempt numbers the operation was called with, the waits, the
  calls of the fallback.\<close>

fun invocations :: "event list \<Rightarrow> nat list" where
  "invocations [] = []"
| "invocations (Invoke n # tr) = n # invocations tr"
| "invocations (ev # tr) = invocations tr"

fun waits :: "event list \<Rightarrow> real list" where
  "waits [] = []"
| "waits (Wait d # tr) = d # waits tr"
| "waits (ev # tr) = waits tr"

fun fallback_calls :: "event list \<Rightarrow> (jsval \<times> nat) list" where
  "fallback_calls [] = []"
| "fallback_calls (FallbackCall err n # tr) = (err, n) # fallback_calls tr"
| "fallback_calls (ev # tr) = fallback_calls tr"

text \<open>
  An operation is a function of the attempt number and of the caller's world. When it is
  called with the numbers \<open>a\<close>, \<open>a + 1\<close>, ... from the world \<open>w\<close>, \<open>world_after fn a w j\<close> is
  the world after \<open>j\<close> calls and \<open>answer fn a w j\<close> is what call number \<open>j + 1\<close> answers.
\<close>

fun world_after :: "'w FunctionToExecute \<Rightarrow> nat \<Rightarrow> 'w \<Rightarrow> nat \<Rightarrow> 'w" where
  "world_after fn a w 0 = w"
| "world_after fn a w (Suc j) = world_after fn (Suc a) (snd (fn a w)) j"

definition answer :: "'w FunctionToExecute \<Rightarrow> nat \<Rightarrow> 'w \<Rightarrow> nat \<Rightarrow> jsval promise" where
  "answer fn a w j = fst (fn (a + j) (world_after fn a w j))"

text \<open>
  A failure the engine retries while the budget lasts: the call rejects with an error that
  lines 110 to 116 do not throw on.
\<close>

definition fails_retryably :: "'w grit \<Rightarrow> jsval promise \<Rightarrow> bool" where
  "fails_retryably g p = (case p of Rejected err \<Rightarrow> \<not> rethrown g err | Resolved v \<Rightarrow> False | Pending \<Rightarrow> False)"

text \<open>The cancellation signal of the engine, if it has one, is aborted in no world.\<close>

definition never_aborted :: "'w grit \<Rightarrow> bool" where
  "never_aborted g =
     (case timeout g of
        Some (TimeoutObject t m (Some s)) \<Rightarrow> (\<forall>w. \<not> aborted (s w))
      | _ \<Rightarrow> True)"

text \<open>
  The random numbers and the arithmetic of the platform: what a computed delay depends on
  besides the configuration and the attempt number. No step of a run changes them.
\<close>

definition platform ::
  "'w env \<Rightarrow> (nat \<Rightarrow> real) \<times> (real \<Rightarrow> real \<Rightarrow> real) \<times> (real \<Rightarrow> real \<Rightarrow> real)
     \<times> (real \<Rightarrow> real \<Rightarrow> real) \<times> (real \<Rightarrow> int \<Rightarrow> real)" where
  "platform e = (rand_source e, js_mul e, js_add e, js_sub e, js_pow e)"

text \<open>
  No delay that the engine may still compute vanishes. The retries that the budget leaves
  are \<open>retryCount - retries\<close>; the next one computes its delay with the exponent
  \<open>attempts - 1\<close> (the attempt number is raised before), the one after with the next
  exponent. For an engine just built the exponents are 0 up to \<open>retryCount - 1\<close>. With
  an exponential or a jittered delay the value computed for each of these exponents, and
  for every random number that may be drawn, is not 0. A fixed delay and a delay array do
  no arithmetic. The platform refuses a delay that is NaN as it refuses 0; NaN can only
  come from an infinite intermediate result and is outside the model.
\<close>

definition delays_never_vanish :: "'w grit \<Rightarrow> 'w env \<Rightarrow> bool" where
  "delays_never_vanish g e =
     (\<forall>k. int (attempts g) - 1 \<le> k \<and> k < int (attempts g) - 1 + (retryCount g - int (retries g)) \<longrightarrow>
        (case delay g of
           None \<Rightarrow> True
         | Some (DelayNumber d) \<Rightarrow> True
         | Some (DelayArray a) \<Rightarrow> True
         | Some (DelayExponential factor d) \<Rightarrow> exponentialDelay e factor d k \<noteq> 0
         | Some (DelayRandom factor minDelay maxDelay) \<Rightarrow>
             (\<forall>i. jitterDelay e factor minDelay maxDelay (rand_source e i) k \<noteq> 0)))"

text \<open>
  What the loop keeps from one attempt to the next: a delay array holds one positive entry
  for each retry that is left, as validation has established at the start, and no delay
  that may still be computed vanishes.
\<close>

definition delay_ok :: "'w grit \<Rightarrow> 'w env \<Rightarrow> bool" where
  "delay_ok g e =
     ((case delay g of
         Some (DelayArray a) \<Rightarrow>
           int (length (arrays e a)) = retryCount g - int (retries g) \<and> (\<forall>x \<in> set (arrays e a). 0 < x)
       | _ \<Rightarrow> True)
      \<and> delays_never_vanish g e)"

text \<open>
  The engine and the environment after \<open>j\<close> attempts that called the operation, failed and
  were retried (lines 118 to 123 after each).
\<close>

fun failures :: "'w grit \<Rightarrow> 'w FunctionToExecute \<Rightarrow> 'w env \<Rightarrow> nat \<Rightarrow> 'w grit \<times> 'w env" where
  "failures g fn e 0 = (g, e)"
| "failures g fn e (Suc j) =
     (let e1 = snd (call fn (attempts g) e);
          g1 = retried g;
          e2 = (if delay_truthy (delay g1) then snd (backoff g1 e1) else e1)
      in failures g1 fn e2 j)"

text \<open>
  The environment after one attempt that called the operation, failed and was retried:
  the call, then the wait of lines 121 to 123 if a delay is set.
\<close>

definition after_retry :: "'w grit \<Rightarrow> 'w FunctionToExecute \<Rightarrow> 'w env \<Rightarrow> 'w env" where
  "after_retry g fn e =
     (if delay_truthy (delay g) then snd (backoff (retried g) (snd (call fn (attempts g) e)))
      else snd (call fn (attempts g) e))"

section \<open>The arithmetic of doubles\<close>

text \<open>
  The arithmetic that the example runs use for the parameters \<open>js_mul\<close>, \<open>js_add\<close>,
  \<open>js_sub\<close> and \<open>js_pow\<close>: IEEE 754 binary64 with rounding to the nearest double, ties
  to the even one. A double is a multiple of its unit in the last place, which is
  \<open>2\<close> to the power \<open>e - 52\<close> for a number between \<open>2\<close> to the \<open>e\<close> and \<open>2\<close> to the \<open>e + 1\<close>,
  and \<open>2\<close> to the \<open>- 1074\<close> below \<open>2\<close> to the \<open>- 1022\<close> (the subnormal numbers). The
  product, the sum and the difference are the exact results rounded. \<^verbatim>\<open>Math.pow\<close> is
  taken as the exact power rounded; the language leaves its last bit to the platform, and
  the examples use it where the exact power is a double. A result beyond the largest
  double is Infinity on the platform and has no counterpart here.
\<close>

definition round_half_even :: "real \<Rightarrow> int" where
  "round_half_even x =
     (if frac x = 1 / 2 then (if even \<lfloor>x\<rfloor> then \<lfloor>x\<rfloor> else \<lfloor>x\<rfloor> + 1) else \<lfloor>x + 1 / 2\<rfloor>)"

definition double_ulp :: "real \<Rightarrow> real" where
  "double_ulp x = 2 powi (max \<lfloor>log 2 \<bar>x\<bar>\<rfloor> (- 1022) - 52)"

definition to_double :: "real \<Rightarrow> real" where
  "to_double x = (if x = 0 then 0 else of_int (round_half_even (x / double_ulp x)) * double_ulp x)"

text \<open>\<^verbatim>\<open>Number.MIN_VALUE\<close>, the smallest double above 0.\<close>

definition MIN_VALUE :: real where
  "MIN_VALUE = 2 powi (- 1074)"

section \<open>Example runs\<close>

text \<open>
  The operations of the test suite. The world is the number of calls made so far, as the
  counters of the tests are. \<open>UserClass 0\<close>, \<open>1\<close> and \<open>2\<close> stand for the classes
  \<^verbatim>\<open>NetworkError\<close>, \<^verbatim>\<open>TimeoutError\<close> and \<^verbatim>\<open>ValidationError\<close> that the tests declare.
  The arithmetic of the example environment is that of doubles.
\<close>

definition example_env :: "nat env" where
  "example_env =
     \<lparr> arrays = (\<lambda>a. if a = 0 then [200, 300] else []), world = 0,
       rand_source = (\<lambda>i. 1 / 2), rand_drawn = 0,
       js_mul = (\<lambda>x y. to_double (x * y)), js_add = (\<lambda>x y. to_double (x + y)),
       js_sub = (\<lambda>x y. to_double (x - y)), js_pow = (\<lambda>x k. to_double (x powi k)),
       trace = [] \<rparr>"

definition example_props :: "int \<Rightarrow> nat grit_props" where
  "example_props n =
     \<lparr> props_retryCount = Some n, props_fallback = None, props_onlyErrors = None,
       props_skipErrors = None, props_delay = None, props_timeout = None,
       props_logging = None \<rparr>"

definition example_engine :: "int \<Rightarrow> nat grit" where
  "example_engine n =
     \<lparr> retryCount = n, attempts = 1, retries = 0, onlyErrors = [], skipErrors = [],
       delay = None, fallback = None, timeout = None, logging = False \<rparr>"

definition flaky :: "nat FunctionToExecute" where
  "flaky a c =
     (if Suc c < 3 then Rejected (JObj (Some ErrorClass) (Text ''Failed''))
      else Resolved (JStr ''success''), Suc c)"

definition always_failing :: "nat FunctionToExecute" where
  "always_failing a c = (Rejected (JObj (Some ErrorClass) (Text ''Always fails'')), Suc c)"

definition throws_string :: "nat FunctionToExecute" where
  "throws_string a c = (Rejected (JStr ''string error''), Suc c)"

definition throws_validation :: "nat FunctionToExecute" where
  "throws_validation a c = (Rejected (JObj (Some (UserClass 2)) (Text ''Validation error'')), Suc c)"

definition example_fallback :: "nat FallbackFunction" where
  "example_fallback err a c = (Resolved (JStr ''fallback''), c)"

definition aborted_signal :: "nat \<Rightarrow> abort_signal" where
  "aborted_signal c = \<lparr> aborted = True, reason = JUndefined \<rparr>"

section \<open>Lemmas about the engine\<close>

lemma invocations_append: "invocations (xs @ ys) = invocations xs @ invocations ys"
  by (induction xs rule: invocations.induct) simp_all

lemma waits_append: "waits (xs @ ys) = waits xs @ waits ys"
  by (induction xs rule: waits.induct) simp_all

lemma fallback_calls_append: "fallback_calls (xs @ ys) = fallback_calls xs @ fallback_calls ys"
  by (induction xs rule: fallback_calls.induct) simp_all

lemma call_eq:
  "call fn n e = (fst (fn n (world e)), e\<lparr>world := snd (fn n (world e)), trace := trace e @ [Invoke n]\<rparr>)"
  by (simp add: call_def split: prod.splits)

lemma call_fallback_eq:
  "call_fallback fb err n e =
     (fst (fb err n (world e)), e\<lparr>world := snd (fb err n (world e)), trace := trace e @ [FallbackCall err n]\<rparr>)"
  by (simp add: call_fallback_def split: prod.splits)

lemma race_settled: "p \<noteq> Pending \<Longrightarrow> race m p = p"
  by (cases p) (simp_all add: race_def)

lemma race_not_Pending: "race m p \<noteq> Pending"
  by (cases p) (simp_all add: race_def)

lemma execute_try_call:
  assumes "never_aborted g" and "fst (fn (attempts g) (world e)) \<noteq> Pending"
  shows "execute_try g fn e = call fn (attempts g) e"
proof (cases "timeout g")
  case None
  then show ?thesis by (simp add: execute_try_def)
next
  case (Some c)
  show ?thesis
  proof (cases c)
    case (TimeoutNumber t)
    with Some assms(2) show ?thesis
      by (simp add: execute_try_def withTimeout_def call_eq race_settled)
  next
    case (TimeoutObject t m s)
    show ?thesis
    proof (cases s)
      case None
      with Some TimeoutObject assms(2) show ?thesis
        by (simp add: execute_try_def withTimeout_def call_eq race_settled)
    next
      case (Some sg)
      with \<open>timeout g = Some c\<close> TimeoutObject assms show ?thesis
        by (simp add: execute_try_def withTimeout_def call_eq race_settled never_aborted_def)
    qed
  qed
qed

lemma retried_fields [simp]:
  "retryCount (retried g) = retryCount g"
  "attempts (retried g) = Suc (attempts g)"
  "retries (retried g) = Suc (retries g)"
  "onlyErrors (retried g) = onlyErrors g"
  "skipErrors (retried g) = skipErrors g"
  "delay (retried g) = delay g"
  "fallback (retried g) = fallback g"
  "timeout (retried g) = timeout g"
  "logging (retried g) = logging g"
  by (simp_all add: retried_def)

lemma rethrown_retried: "rethrown (retried g) err = rethrown g err"
  by (simp add: rethrown_def split: option.split)

lemma never_aborted_retried: "never_aborted (retried g) = never_aborted g"
  by (simp add: never_aborted_def)

lemma fails_retryably_retried: "fails_retryably (retried g) p = fails_retryably g p"
  by (cases p) (simp_all add: fails_retryably_def rethrown_retried)

lemma fails_retryablyD: "fails_retryably g p \<Longrightarrow> \<exists>err. p = Rejected err \<and> \<not> rethrown g err"
  by (cases p) (simp_all add: fails_retryably_def)

lemma answer_0: "answer fn a w 0 = fst (fn a w)"
  by (simp add: answer_def)

lemma answer_Suc: "answer fn a w (Suc j) = answer fn (Suc a) (snd (fn a w)) j"
  by (simp add: answer_def)

lemma factor_or_1_nonzero: "factor_or_1 f \<noteq> 0"
  by (cases f) simp_all

lemma exponentialDelay_cong:
  "platform e' = platform e \<Longrightarrow> exponentialDelay e' f d k = exponentialDelay e f d k"
  by (simp add: platform_def exponentialDelay_def)

lemma jitterDelay_cong:
  "platform e' = platform e \<Longrightarrow>
   jitterDelay e' f mn mx (rand_source e' i) k = jitterDelay e f mn mx (rand_source e i) k"
  by (cases f) (simp_all add: platform_def jitterDelay_def Let_def)

lemma delays_never_vanish_cong:
  assumes "platform e' = platform e"
  shows "delays_never_vanish g e' = delays_never_vanish g e"
proof (cases "delay g")
  case None
  then show ?thesis by (simp add: delays_never_vanish_def)
next
  case (Some c)
  then show ?thesis
    by (cases c)
       (simp_all add: delays_never_vanish_def exponentialDelay_cong [OF assms]
          jitterDelay_cong [OF assms])
qed

lemma delay_ok_cong:
  "arrays e' = arrays e \<Longrightarrow> platform e' = platform e \<Longrightarrow> delay_ok g e' = delay_ok g e"
  using delays_never_vanish_cong [of e' e g]
  by (simp add: delay_ok_def split: option.split delay_config.split)

lemma delays_never_vanish_retried:
  "delays_never_vanish g e \<Longrightarrow> delays_never_vanish (retried g) e"
  by (simp add: delays_never_vanish_def)

lemma next_exponential_delay:
  assumes "delays_never_vanish g e" and "int (retries g) < retryCount g"
    and "delay g = Some (DelayExponential factor d)"
  shows "exponentialDelay e factor d (int (attempts g) - 1) \<noteq> 0"
  using assms(1) [unfolded delays_never_vanish_def, rule_format, of "int (attempts g) - 1"]
    assms(2,3)
  by simp

lemma next_jitter_delay:
  assumes "delays_never_vanish g e" and "int (retries g) < retryCount g"
    and "delay g = Some (DelayRandom factor minDelay maxDelay)"
  shows "jitterDelay e factor minDelay maxDelay (rand_source e i) (int (attempts g) - 1) \<noteq> 0"
  using assms(1) [unfolded delays_never_vanish_def, rule_format, of "int (attempts g) - 1"]
    assms(2,3)
  by simp

lemma backoff_world: "world (snd (backoff g e)) = world e"
  by (simp add: backoff_def currentDelay_def raw_delay_def Let_def
      split: option.split delay_config.split list.split)

lemma backoff_platform: "platform (snd (backoff g e)) = platform e"
  by (simp add: backoff_def currentDelay_def raw_delay_def Let_def platform_def
      split: option.split delay_config.split list.split)

lemma backoff_invocations: "invocations (trace (snd (backoff g e))) = invocations (trace e)"
  by (simp add: backoff_def currentDelay_def raw_delay_def Let_def invocations_append
      split: option.split delay_config.split list.split)

lemma backoff_fallback_calls: "fallback_calls (trace (snd (backoff g e))) = fallback_calls (trace e)"
  by (simp add: backoff_def currentDelay_def raw_delay_def Let_def fallback_calls_append
      split: option.split delay_config.split list.split)

lemma backoff_resolves:
  assumes "delay_ok g e" and "int (retries g) < retryCount g" and "delay_truthy (delay g)"
  shows "fst (backoff (retried g) e) = Resolved ()"
proof (cases "delay g")
  case None
  with assms(3) show ?thesis by simp
next
  case (Some c)
  from assms(1) have nv: "delays_never_vanish g e" by (simp add: delay_ok_def)
  show ?thesis
  proof (cases c)
    case (DelayNumber d)
    with Some assms(3) show ?thesis
      by (simp add: backoff_def currentDelay_def raw_delay_def)
  next
    case (DelayArray a)
    with Some assms(1,2) obtain x xs where "arrays e a = x # xs" "0 < x"
      by (cases "arrays e a") (auto simp: delay_ok_def)
    with Some DelayArray show ?thesis
      by (simp add: backoff_def currentDelay_def raw_delay_def)
  next
    case (DelayExponential f d)
    with Some have "exponentialDelay e f d (int (attempts g) - 1) \<noteq> 0"
      using nv assms(2) by (intro next_exponential_delay) simp_all
    with Some DelayExponential show ?thesis
      by (simp add: backoff_def currentDelay_def raw_delay_def)
  next
    case (DelayRandom f mn mx)
    with Some have "jitterDelay e f mn mx (rand_source e (rand_drawn e)) (int (attempts g) - 1) \<noteq> 0"
      using nv assms(2) by (intro next_jitter_delay) simp_all
    with Some DelayRandom show ?thesis
      by (simp add: backoff_def currentDelay_def raw_delay_def)
  qed
qed

lemma backoff_delay_ok:
  assumes "delay_ok g e" and "int (retries g) < retryCount g" and "delay_truthy (delay g)"
  shows "delay_ok (retried g) (snd (backoff (retried g) e))"
proof -
  from assms(1) have "delays_never_vanish (retried g) e"
    by (simp add: delay_ok_def delays_never_vanish_retried)
  then have nv: "delays_never_vanish (retried g) (snd (backoff (retried g) e))"
    using delays_never_vanish_cong [OF backoff_platform, of "retried g" "retried g" e] by simp
  show ?thesis
  proof (cases "delay g")
    case None
    with assms(3) show ?thesis by simp
  next
    case (Some c)
    show ?thesis
    proof (cases c)
      case (DelayNumber d)
      with Some nv show ?thesis by (simp add: delay_ok_def)
    next
      case (DelayArray a)
      with Some assms(1,2) obtain x xs where "arrays e a = x # xs" "0 < x"
        by (cases "arrays e a") (auto simp: delay_ok_def)
      with Some DelayArray assms(1) nv show ?thesis
        by (simp add: backoff_def currentDelay_def raw_delay_def delay_ok_def)
    next
      case (DelayExponential f d)
      with Some nv show ?thesis by (simp add: delay_ok_def)
    next
      case (DelayRandom f mn mx)
      with Some nv show ?thesis by (simp add: delay_ok_def)
    qed
  qed
qed

lemma delay_ok_retried_no_delay:
  assumes "\<not> delay_truthy (delay g)"
  shows "delay_ok (retried g) e"
  using assms
  by (cases "delay g" rule: delay_truthy.cases) (simp_all add: delay_ok_def delays_never_vanish_def)

lemma failures_Suc: "failures g fn e (Suc j) = failures (retried g) fn (after_retry g fn e) j"
  by (simp add: after_retry_def Let_def)

lemma after_retry_world: "world (after_retry g fn e) = snd (fn (attempts g) (world e))"
  by (simp add: after_retry_def backoff_world call_eq)

lemma after_retry_invocations:
  "invocations (trace (after_retry g fn e)) = invocations (trace e) @ [attempts g]"
  by (simp add: after_retry_def backoff_invocations call_eq invocations_append)

lemma after_retry_fallback_calls:
  "fallback_calls (trace (after_retry g fn e)) = fallback_calls (trace e)"
  by (simp add: after_retry_def backoff_fallback_calls call_eq fallback_calls_append)

lemma after_retry_delay_ok:
  assumes "delay_ok g e" and "int (retries g) < retryCount g"
  shows "delay_ok (retried g) (after_retry g fn e)"
proof (cases "delay_truthy (delay g)")
  case True
  have "delay_ok g (snd (call fn (attempts g) e)) = delay_ok g e"
    by (rule delay_ok_cong) (simp_all add: call_eq platform_def)
  with True assms show ?thesis
    by (simp add: after_retry_def backoff_delay_ok)
next
  case False
  then show ?thesis by (simp add: delay_ok_retried_no_delay)
qed

lemma execute_step:
  assumes "never_aborted g" and "delay_ok g e"
    and "fails_retryably g (fst (fn (attempts g) (world e)))"
    and "int (retries g) < retryCount g"
  shows "execute g fn e = execute (retried g) fn (after_retry g fn e)"
proof -
  from assms(3) obtain err where err: "fst (fn (attempts g) (world e)) = Rejected err" "\<not> rethrown g err"
    by (auto dest: fails_retryablyD)
  let ?e1 = "snd (call fn (attempts g) e)"
  have tried: "execute_try g fn e = (Rejected err, ?e1)"
    using assms(1) err(1) by (simp add: execute_try_call call_eq)
  have "delay_ok g ?e1 = delay_ok g e"
    by (rule delay_ok_cong) (simp_all add: call_eq platform_def)
  with assms(2) have ok1: "delay_ok g ?e1" by simp
  show ?thesis
  proof (cases "delay_truthy (delay g)")
    case True
    with ok1 assms(4) have "fst (backoff (retried g) ?e1) = Resolved ()"
      by (simp add: backoff_resolves)
    then have "backoff (retried g) ?e1 = (Resolved (), after_retry g fn e)"
      using True by (simp add: after_retry_def prod_eq_iff)
    with tried err(2) assms(4) True show ?thesis
      by (subst execute.simps) (simp add: Let_def)
  next
    case False
    with tried err(2) assms(4) show ?thesis
      by (subst execute.simps) (simp add: Let_def after_retry_def)
  qed
qed

lemma execute_unroll:
  assumes "never_aborted g" and "delay_ok g e"
    and "\<forall>i<j. fails_retryably g (answer fn (attempts g) (world e) i)"
    and "int (retries g) + int j \<le> retryCount g"
  shows "execute g fn e = execute (fst (failures g fn e j)) fn (snd (failures g fn e j))"
  using assms
proof (induction j arbitrary: g e)
  case 0
  then show ?case by simp
next
  case (Suc j)
  from Suc.prems(3) have first: "fails_retryably g (fst (fn (attempts g) (world e)))"
    using answer_0 [of fn "attempts g" "world e"] by (metis zero_less_Suc)
  from Suc.prems(4) have budget: "int (retries g) < retryCount g" by simp
  have step: "execute g fn e = execute (retried g) fn (after_retry g fn e)"
    using Suc.prems(1,2) first budget by (rule execute_step)
  have rest: "\<forall>i<j. fails_retryably (retried g)
      (answer fn (attempts (retried g)) (world (after_retry g fn e)) i)"
  proof (intro allI impI)
    fix i assume "i < j"
    then have "fails_retryably g (answer fn (attempts g) (world e) (Suc i))"
      using Suc.prems(3) by simp
    then show "fails_retryably (retried g)
        (answer fn (attempts (retried g)) (world (after_retry g fn e)) i)"
      by (simp add: answer_Suc after_retry_world fails_retryably_retried)
  qed
  have "execute (retried g) fn (after_retry g fn e) =
      execute (fst (failures (retried g) fn (after_retry g fn e) j)) fn
              (snd (failures (retried g) fn (after_retry g fn e) j))"
  proof (rule Suc.IH)
    show "never_aborted (retried g)" using Suc.prems(1) by (simp add: never_aborted_retried)
    show "delay_ok (retried g) (after_retry g fn e)"
      using Suc.prems(2) budget by (rule after_retry_delay_ok)
    show "\<forall>i<j. fails_retryably (retried g)
      (answer fn (attempts (retried g)) (world (after_retry g fn e)) i)" by (rule rest)
    show "int (retries (retried g)) + int j \<le> retryCount (retried g)"
      using Suc.prems(4) by simp
  qed
  with step show ?case by (simp only: failures_Suc)
qed

lemma failures_engine:
  "fst (failures g fn e j) = g\<lparr>attempts := attempts g + j, retries := retries g + j\<rparr>"
proof (induction j arbitrary: g e)
  case 0
  then show ?case by simp
next
  case (Suc j)
  show ?case by (simp only: failures_Suc Suc.IH) (simp add: retried_def)
qed

lemma failures_world:
  "world (snd (failures g fn e j)) = world_after fn (attempts g) (world e) j"
proof (induction j arbitrary: g e)
  case 0
  then show ?case by simp
next
  case (Suc j)
  show ?case by (simp only: failures_Suc Suc.IH) (simp add: after_retry_world)
qed

lemma failures_invocations:
  "invocations (trace (snd (failures g fn e j))) =
     invocations (trace e) @ [attempts g ..< attempts g + j]"
proof (induction j arbitrary: g e)
  case 0
  then show ?case by simp
next
  case (Suc j)
  show ?case
    by (simp only: failures_Suc Suc.IH) (simp add: after_retry_invocations upt_conv_Cons)
qed

lemma failures_fallback_calls:
  "fallback_calls (trace (snd (failures g fn e j))) = fallback_calls (trace e)"
proof (induction j arbitrary: g e)
  case 0
  then show ?case by simp
next
  case (Suc j)
  show ?case by (simp only: failures_Suc Suc.IH) (simp add: after_retry_fallback_calls)
qed

lemma failures_delay_ok:
  assumes "delay_ok g e" and "int (retries g) + int j \<le> retryCount g"
  shows "delay_ok (fst (failures g fn e j)) (snd (failures g fn e j))"
  using assms
proof (induction j arbitrary: g e)
  case 0
  then show ?case by simp
next
  case (Suc j)
  from Suc.prems have "delay_ok (retried g) (after_retry g fn e)"
    by (simp add: after_retry_delay_ok)
  moreover from Suc.prems(2) have "int (retries (retried g)) + int j \<le> retryCount (retried g)"
    by simp
  ultimately show ?case by (simp only: failures_Suc Suc.IH)
qed

lemma new_Grit_fields:
  assumes "new_Grit props arrs = Inr g"
  shows "attempts g = 1" and "retries g = 0"
    and "props_retryCount props = Some (retryCount g)"
    and "delay g = props_delay props" and "timeout g = props_timeout props"
    and "fallback g = props_fallback props"
  using assms by (auto simp: new_Grit_def split: sum.splits option.splits)

lemma new_Grit_validated:
  assumes "new_Grit props arrs = Inr g"
  shows "validateGritConfig (Some (retryCount g)) (delay g) (timeout g) arrs = Inr ()"
  using assms by (auto simp: new_Grit_def split: sum.splits option.splits)

lemma validated_delay_ok:
  assumes "validateGritConfig (Some (retryCount g)) (delay g) (timeout g) (arrays e) = Inr ()"
    and "retries g = 0" and "delays_never_vanish g e"
  shows "delay_ok g e"
proof (cases "delay g")
  case None
  with assms(3) show ?thesis by (simp add: delay_ok_def)
next
  case (Some c)
  with assms show ?thesis
    by (cases c) (auto simp: delay_ok_def list_ex_iff not_le split: if_splits)
qed

lemma new_Grit_delay_ok:
  assumes "new_Grit props (arrays e) = Inr g" and "delays_never_vanish g e"
  shows "delay_ok g e"
proof (rule validated_delay_ok)
  show "validateGritConfig (Some (retryCount g)) (delay g) (timeout g) (arrays e) = Inr ()"
    using assms(1) by (rule new_Grit_validated)
  show "retries g = 0" using assms(1) by (rule new_Grit_fields)
  show "delays_never_vanish g e" by (rule assms(2))
qed

lemma execute_resolved:
  "execute_try g fn e = (Resolved v, e1) \<Longrightarrow> execute g fn e = (Resolved v, g, e1)"
  by (subst execute.simps) simp

lemma execute_exhausted:
  assumes "execute_try g fn e = (Rejected err, e1)" and "retryCount g \<le> int (retries g)"
  shows "execute g fn e =
     (case fallback g of
        None \<Rightarrow> (Rejected err, g, e1)
      | Some fb \<Rightarrow> (fst (fb err (attempts g) (world e1)), g,
                    e1\<lparr>world := snd (fb err (attempts g) (world e1)),
                       trace := trace e1 @ [FallbackCall err (attempts g)]\<rparr>))"
  using assms by (subst execute.simps) (simp add: call_fallback_eq split: option.split)

lemma execute_rethrown:
  assumes "execute_try g fn e = (Rejected err, e1)" and "int (retries g) < retryCount g"
    and "rethrown g err"
  shows "execute g fn e = (Rejected err, g, e1)"
  using assms by (subst execute.simps) simp

text \<open>After j retried failures, the attempt that decides the run.\<close>

lemma failures_then_call:
  assumes "never_aborted g"
    and "answer fn (attempts g) (world e) j \<noteq> Pending"
  shows "execute_try (fst (failures g fn e j)) fn (snd (failures g fn e j)) =
     (answer fn (attempts g) (world e) j,
      (snd (failures g fn e j))\<lparr>world := world_after fn (attempts g) (world e) (Suc j),
         trace := trace (snd (failures g fn e j)) @ [Invoke (attempts g + j)]\<rparr>)"
proof -
  let ?g = "fst (failures g fn e j)" and ?e = "snd (failures g fn e j)"
  have a: "attempts ?g = attempts g + j" by (simp add: failures_engine)
  have w: "world ?e = world_after fn (attempts g) (world e) j" by (rule failures_world)
  have na: "never_aborted ?g" using assms(1) by (simp add: failures_engine never_aborted_def)
  have ws: "world_after fn a w (Suc i) = snd (fn (a + i) (world_after fn a w i))" for a w i
    by (induction i arbitrary: a w) simp_all
  have "fst (fn (attempts ?g) (world ?e)) \<noteq> Pending"
    using assms(2) by (simp add: a w answer_def)
  with na have "execute_try ?g fn ?e = call fn (attempts ?g) ?e" by (rule execute_try_call)
  then show ?thesis by (simp add: call_eq a w answer_def ws del: world_after.simps)
qed

lemma execute_run_induct [case_names settled fallback stuck retry]:
  assumes settled: "\<And>g fn e p e1.
      execute_try g fn e = (p, e1) \<Longrightarrow> execute g fn e = (p, g, e1) \<Longrightarrow> P g fn e"
    and fallback: "\<And>g fn e err e1 fb.
      execute_try g fn e = (Rejected err, e1) \<Longrightarrow> retryCount g \<le> int (retries g) \<Longrightarrow>
      fallback g = Some fb \<Longrightarrow>
      execute g fn e = (fst (call_fallback fb err (attempts g) e1), g,
                        snd (call_fallback fb err (attempts g) e1)) \<Longrightarrow> P g fn e"
    and stuck: "\<And>g fn e err e1 p e2.
      execute_try g fn e = (Rejected err, e1) \<Longrightarrow> int (retries g) < retryCount g \<Longrightarrow>
      \<not> rethrown g err \<Longrightarrow> delay_truthy (delay g) \<Longrightarrow>
      backoff (retried g) e1 = (p, e2) \<Longrightarrow> p \<noteq> Resolved () \<Longrightarrow>
      execute g fn e = ((case p of Rejected err2 \<Rightarrow> Rejected err2 | _ \<Rightarrow> Pending), retried g, e2) \<Longrightarrow>
      P g fn e"
    and retry: "\<And>g fn e err e1 e2.
      execute_try g fn e = (Rejected err, e1) \<Longrightarrow> int (retries g) < retryCount g \<Longrightarrow>
      \<not> rethrown g err \<Longrightarrow>
      e2 = (if delay_truthy (delay g) then snd (backoff (retried g) e1) else e1) \<Longrightarrow>
      (delay_truthy (delay g) \<longrightarrow> fst (backoff (retried g) e1) = Resolved ()) \<Longrightarrow>
      execute g fn e = execute (retried g) fn e2 \<Longrightarrow> P (retried g) fn e2 \<Longrightarrow> P g fn e"
  shows "P g fn e"
proof (induction g fn e rule: execute.induct)
  case (1 g fn e)
  obtain x y where xy: "execute_try g fn e = (x, y)" by fastforce
  show ?case
  proof (cases x)
    case (Resolved v)
    with xy have "execute g fn e = (x, g, y)" by (subst execute.simps) simp
    with xy show ?thesis by (rule settled)
  next
    case Pending
    with xy have "execute g fn e = (x, g, y)" by (subst execute.simps) simp
    with xy show ?thesis by (rule settled)
  next
    case (Rejected err)
    show ?thesis
    proof (cases "retryCount g \<le> int (retries g)")
      case True
      show ?thesis
      proof (cases "fallback g")
        case None
        with xy Rejected True have "execute g fn e = (x, g, y)" by (subst execute.simps) simp
        with xy show ?thesis by (rule settled)
      next
        case (Some fb)
        with xy Rejected True have "execute g fn e =
            (fst (call_fallback fb err (attempts g) y), g, snd (call_fallback fb err (attempts g) y))"
          by (subst execute.simps) (simp split: prod.split)
        with xy Rejected True Some show ?thesis by (simp add: fallback)
      qed
    next
      case False
      then have budget: "int (retries g) < retryCount g" by simp
      show ?thesis
      proof (cases "rethrown g err")
        case True
        with xy Rejected False have "execute g fn e = (x, g, y)" by (subst execute.simps) simp
        with xy show ?thesis by (rule settled)
      next
        case nr: False
        show ?thesis
        proof (cases "delay_truthy (delay g)")
          case dt: True
          obtain xb yb where b: "backoff (retried g) y = (xb, yb)" by fastforce
          show ?thesis
          proof (cases "xb = Resolved ()")
            case True
            with xy Rejected False nr dt b have ex: "execute g fn e = execute (retried g) fn yb"
              by (subst execute.simps) (simp add: Let_def)
            have "P (retried g) fn yb"
              using xy Rejected False nr dt b True
              by (intro "1.IH"(1) [of x y err "retried g" xb yb "()"]) simp_all
            with xy Rejected budget nr dt b True ex show ?thesis
              by (intro retry [of g fn e err y yb]) simp_all
          next
            case nres: False
            with xy Rejected False nr dt b have "execute g fn e =
                ((case xb of Rejected err2 \<Rightarrow> Rejected err2 | _ \<Rightarrow> Pending), retried g, yb)"
              by (subst execute.simps) (cases xb; simp add: Let_def)
            with xy Rejected budget nr dt b nres show ?thesis
              by (intro stuck [of g fn e err y xb yb]) simp_all
          qed
        next
          case ndt: False
          with xy Rejected False nr have ex: "execute g fn e = execute (retried g) fn y"
            by (subst execute.simps) (simp add: Let_def)
          have "P (retried g) fn y"
            using xy Rejected False nr ndt
            by (intro "1.IH"(2) [of x y err "retried g"]) simp_all
          with xy Rejected budget nr ndt ex show ?thesis
            by (intro retry [of g fn e err y y]) simp_all
        qed
      qed
    qed
  qed
qed

lemma withTimeout_arrays: "arrays (snd (withTimeout g fn e)) = arrays e"
  by (simp add: withTimeout_def call_eq split: sum.split prod.split option.split)

lemma withTimeout_platform: "platform (snd (withTimeout g fn e)) = platform e"
  by (simp add: withTimeout_def call_eq platform_def split: sum.split prod.split option.split)

lemma withTimeout_trace: "\<exists>tr. trace (snd (withTimeout g fn e)) = trace e @ tr"
  by (simp add: withTimeout_def call_eq split: sum.split prod.split option.split)

lemma withTimeout_settles: "fst (withTimeout g fn e) \<noteq> Pending"
  by (simp add: withTimeout_def call_eq race_not_Pending split: sum.split prod.split option.split)

lemma execute_try_arrays: "arrays (snd (execute_try g fn e)) = arrays e"
  by (simp add: execute_try_def withTimeout_arrays call_eq)

lemma execute_try_platform: "platform (snd (execute_try g fn e)) = platform e"
  by (simp add: execute_try_def withTimeout_platform call_eq) (simp add: platform_def)

lemma execute_try_trace: "\<exists>tr. trace (snd (execute_try g fn e)) = trace e @ tr"
  by (simp add: execute_try_def withTimeout_trace call_eq)

lemma execute_try_settles:
  "timeout_truthy (timeout g) \<or> (\<forall>a w. fst (fn a w) \<noteq> Pending) \<Longrightarrow>
   fst (execute_try g fn e) \<noteq> Pending"
  by (auto simp: execute_try_def withTimeout_settles call_eq)

lemma backoff_trace: "\<exists>tr. trace (snd (backoff g e)) = trace e @ tr"
  by (simp add: backoff_def currentDelay_def raw_delay_def Let_def
      split: option.split delay_config.split list.split)

lemma backoff_settles: "fst (backoff g e) \<noteq> Pending"
  by (simp add: backoff_def split: prod.split sum.split)

lemma backoff_shift:
  assumes "delay g = Some (DelayArray a)" and "fst (backoff g e) = Resolved ()"
  shows "arrays e a \<noteq> [] \<and> arrays (snd (backoff g e)) a = tl (arrays e a)"
  using assms
  by (cases "arrays e a") (simp_all add: backoff_def currentDelay_def raw_delay_def split: if_splits)

lemma execute_extends_trace: "\<exists>tr. trace (snd (snd (execute g fn e))) = trace e @ tr"
proof (induction g fn e rule: execute_run_induct)
  case (settled g fn e p e1)
  then show ?case using execute_try_trace [of g fn e] by simp
next
  case (fallback g fn e err e1 fb)
  then show ?case using execute_try_trace [of g fn e] by (auto simp: call_fallback_eq)
next
  case (stuck g fn e err e1 p e2)
  then show ?case
    using execute_try_trace [of g fn e] backoff_trace [of "retried g" e1] by auto
next
  case (retry g fn e err e1 e2)
  obtain t1 where "trace e1 = trace e @ t1"
    using execute_try_trace [of g fn e] retry(1) by auto
  moreover obtain t2 where "trace e2 = trace e1 @ t2"
    using backoff_trace [of "retried g" e1] retry(4) by (cases "delay_truthy (delay g)") auto
  moreover obtain t3 where "trace (snd (snd (execute (retried g) fn e2))) = trace e2 @ t3"
    using retry(7) by auto
  ultimately show ?case using retry(6) by simp
qed

lemma execute_settles:
  assumes "timeout_truthy (timeout g) \<or> (\<forall>a w. fst (fn a w) \<noteq> Pending)"
    and "\<forall>fb err a w. fallback g = Some fb \<longrightarrow> fst (fb err a w) \<noteq> Pending"
  shows "fst (execute g fn e) \<noteq> Pending"
  using assms
proof (induction g fn e rule: execute_run_induct)
  case (settled g fn e p e1)
  then show ?case using execute_try_settles [of g fn e] by auto
next
  case (fallback g fn e err e1 fb)
  then show ?case by (simp add: call_fallback_eq)
next
  case (stuck g fn e err e1 p e2)
  then show ?case using backoff_settles [of "retried g" e1] by (cases p) auto
next
  case (retry g fn e err e1 e2)
  then show ?case by simp
qed

lemma execute_shifts_array:
  assumes "delay g = Some (DelayArray a)" and "delay_ok g e"
  shows "retries g \<le> retries (fst (snd (execute g fn e))) \<and>
     arrays (snd (snd (execute g fn e))) a =
       drop (retries (fst (snd (execute g fn e))) - retries g) (arrays e a)"
  using assms
proof (induction g fn e rule: execute_run_induct)
  case (settled g fn e p e1)
  then show ?case using execute_try_arrays [of g fn e] by simp
next
  case (fallback g fn e err e1 fb)
  then show ?case using execute_try_arrays [of g fn e] by (simp add: call_fallback_eq)
next
  case (stuck g fn e err e1 p e2)
  have "delay_ok g e1 = delay_ok g e"
    using execute_try_arrays [of g fn e] execute_try_platform [of g fn e] stuck(1)
    by (intro delay_ok_cong) simp_all
  with stuck.prems have ok1: "delay_ok g e1" by simp
  have "delay_truthy (delay g)" using stuck.prems(1) by simp
  with ok1 stuck(2) have "fst (backoff (retried g) e1) = Resolved ()"
    by (rule backoff_resolves)
  with stuck(5,6) show ?case by simp
next
  case (retry g fn e err e1 e2)
  have same: "arrays e1 = arrays e" "platform e1 = platform e"
    using execute_try_arrays [of g fn e] execute_try_platform [of g fn e] retry(1) by simp_all
  then have ok1: "delay_ok g e1" using retry.prems(2) by (simp add: delay_ok_cong [of e1 e])
  have dt: "delay_truthy (delay g)" using retry.prems(1) by simp
  with retry(4) have e2: "e2 = snd (backoff (retried g) e1)" by simp
  have ok2: "delay_ok (retried g) e2"
    unfolding e2 using ok1 retry(2) dt by (rule backoff_delay_ok)
  have shift: "arrays e1 a \<noteq> [] \<and> arrays e2 a = tl (arrays e1 a)"
    unfolding e2 using retry.prems(1) retry(5) dt by (intro backoff_shift) simp_all
  have IH: "Suc (retries g) \<le> retries (fst (snd (execute (retried g) fn e2))) \<and>
     arrays (snd (snd (execute (retried g) fn e2))) a =
       drop (retries (fst (snd (execute (retried g) fn e2))) - Suc (retries g)) (arrays e2 a)"
    using retry.IH [OF _ ok2] retry.prems(1) by simp
  then obtain d where d: "retries (fst (snd (execute (retried g) fn e2))) = Suc (retries g) + d"
    using le_Suc_ex by blast
  show ?case
    using IH shift same(1) by (simp add: retry(6) d drop_Suc)
qed

lemma run_resolves:
  assumes "never_aborted g" and "delay_ok g e"
    and "\<forall>i<j. fails_retryably g (answer fn (attempts g) (world e) i)"
    and "answer fn (attempts g) (world e) j = Resolved v"
    and "int (retries g) + int j \<le> retryCount g"
  shows "execute g fn e =
     (Resolved v, fst (failures g fn e j),
      (snd (failures g fn e j))\<lparr>world := world_after fn (attempts g) (world e) (Suc j),
         trace := trace (snd (failures g fn e j)) @ [Invoke (attempts g + j)]\<rparr>)"
proof -
  have "execute g fn e = execute (fst (failures g fn e j)) fn (snd (failures g fn e j))"
    using assms(1,2,3,5) by (rule execute_unroll)
  moreover have "execute_try (fst (failures g fn e j)) fn (snd (failures g fn e j)) =
     (Resolved v,
      (snd (failures g fn e j))\<lparr>world := world_after fn (attempts g) (world e) (Suc j),
         trace := trace (snd (failures g fn e j)) @ [Invoke (attempts g + j)]\<rparr>)"
    using failures_then_call [of g fn e j] assms(1,4) by simp
  ultimately show ?thesis by (simp add: execute_resolved)
qed

lemma run_exhausts:
  assumes "never_aborted g" and "delay_ok g e"
    and "\<forall>i<j. fails_retryably g (answer fn (attempts g) (world e) i)"
    and "answer fn (attempts g) (world e) j = Rejected err"
    and "int (retries g) + int j = retryCount g"
  shows "execute g fn e =
     (case fallback g of
        None \<Rightarrow>
          (Rejected err, fst (failures g fn e j),
           (snd (failures g fn e j))\<lparr>world := world_after fn (attempts g) (world e) (Suc j),
              trace := trace (snd (failures g fn e j)) @ [Invoke (attempts g + j)]\<rparr>)
      | Some fb \<Rightarrow>
          (fst (fb err (attempts g + j) (world_after fn (attempts g) (world e) (Suc j))),
           fst (failures g fn e j),
           (snd (failures g fn e j))
             \<lparr>world := snd (fb err (attempts g + j) (world_after fn (attempts g) (world e) (Suc j))),
              trace := trace (snd (failures g fn e j)) @
                 [Invoke (attempts g + j), FallbackCall err (attempts g + j)]\<rparr>))"
proof -
  let ?g = "fst (failures g fn e j)" and ?e = "snd (failures g fn e j)"
  have "execute g fn e = execute ?g fn ?e"
    using assms(1,2,3) assms(5) by (intro execute_unroll) simp_all
  moreover have "execute_try ?g fn ?e =
     (Rejected err,
      ?e\<lparr>world := world_after fn (attempts g) (world e) (Suc j),
         trace := trace ?e @ [Invoke (attempts g + j)]\<rparr>)"
    using failures_then_call [of g fn e j] assms(1,4) by simp
  moreover have "retryCount ?g \<le> int (retries ?g)"
    using assms(5) by (simp add: failures_engine)
  moreover have "fallback ?g = fallback g" "attempts ?g = attempts g + j"
    by (simp_all add: failures_engine)
  ultimately show ?thesis
    by (simp add: execute_exhausted split: option.split)
qed

lemma withTimeout_fallback_calls:
  "fallback_calls (trace (snd (withTimeout g fn e))) = fallback_calls (trace e)"
  by (simp add: withTimeout_def call_eq fallback_calls_append split: sum.split prod.split option.split)

lemma withTimeout_waits: "waits (trace (snd (withTimeout g fn e))) = waits (trace e)"
  by (simp add: withTimeout_def call_eq waits_append split: sum.split prod.split option.split)

lemma execute_try_fallback_calls:
  "fallback_calls (trace (snd (execute_try g fn e))) = fallback_calls (trace e)"
  by (simp add: execute_try_def withTimeout_fallback_calls call_eq fallback_calls_append)

lemma execute_try_waits: "waits (trace (snd (execute_try g fn e))) = waits (trace e)"
  by (simp add: execute_try_def withTimeout_waits call_eq waits_append)

lemma execute_try_invokes_at_most_once:
  "trace (snd (execute_try g fn e)) = trace e \<or>
   trace (snd (execute_try g fn e)) = trace e @ [Invoke (attempts g)]"
  by (simp add: execute_try_def withTimeout_def call_eq split: sum.split prod.split option.split)

lemma execute_fallback_calls:
  "fallback_calls (trace (snd (snd (execute g fn e)))) = fallback_calls (trace e) \<or>
   (\<exists>err. fallback_calls (trace (snd (snd (execute g fn e)))) =
             fallback_calls (trace e) @ [(err, attempts (fst (snd (execute g fn e))))]
          \<and> retryCount g \<le> int (retries (fst (snd (execute g fn e)))))"
proof (induction g fn e rule: execute_run_induct)
  case (settled g fn e p e1)
  then show ?case using execute_try_fallback_calls [of g fn e] by simp
next
  case (fallback g fn e err e1 fb)
  then show ?case
    using execute_try_fallback_calls [of g fn e] by (simp add: call_fallback_eq fallback_calls_append)
next
  case (stuck g fn e err e1 p e2)
  then show ?case
    using execute_try_fallback_calls [of g fn e] backoff_fallback_calls [of "retried g" e1] by simp
next
  case (retry g fn e err e1 e2)
  have "fallback_calls (trace e2) = fallback_calls (trace e)"
    using execute_try_fallback_calls [of g fn e] backoff_fallback_calls [of "retried g" e1]
      retry(1,4) by (cases "delay_truthy (delay g)") simp_all
  with retry(6,7) show ?case by simp
qed

lemma classless_not_rethrown: "constructor_of err = None \<Longrightarrow> \<not> rethrown g err"
  by (simp add: rethrown_def)

lemma fresh_run_exhausts:
  assumes "new_Grit props (arrays e) = Inr g" and "retryCount g = int n"
    and "never_aborted g" and "delays_never_vanish g e"
    and "\<forall>j<n. fails_retryably g (answer fn 1 (world e) j)"
    and "answer fn 1 (world e) n = Rejected err"
  shows "attempt g fn e =
     (case fallback g of
        None \<Rightarrow>
          (Rejected err, fst (failures g fn e n),
           (snd (failures g fn e n))\<lparr>world := world_after fn 1 (world e) (Suc n),
              trace := trace (snd (failures g fn e n)) @ [Invoke (Suc n)]\<rparr>)
      | Some fb \<Rightarrow>
          (fst (fb err (Suc n) (world_after fn 1 (world e) (Suc n))),
           fst (failures g fn e n),
           (snd (failures g fn e n))
             \<lparr>world := snd (fb err (Suc n) (world_after fn 1 (world e) (Suc n))),
              trace := trace (snd (failures g fn e n)) @
                 [Invoke (Suc n), FallbackCall err (Suc n)]\<rparr>))"
proof -
  have fresh: "attempts g = 1" "retries g = 0"
    using assms(1) by (rule new_Grit_fields)+
  have ok: "delay_ok g e" using assms(1,4) by (rule new_Grit_delay_ok)
  have "execute g fn e =
     (case fallback g of
        None \<Rightarrow>
          (Rejected err, fst (failures g fn e n),
           (snd (failures g fn e n))\<lparr>world := world_after fn (attempts g) (world e) (Suc n),
              trace := trace (snd (failures g fn e n)) @ [Invoke (attempts g + n)]\<rparr>)
      | Some fb \<Rightarrow>
          (fst (fb err (attempts g + n) (world_after fn (attempts g) (world e) (Suc n))),
           fst (failures g fn e n),
           (snd (failures g fn e n))
             \<lparr>world := snd (fb err (attempts g + n) (world_after fn (attempts g) (world e) (Suc n))),
              trace := trace (snd (failures g fn e n)) @
                 [Invoke (attempts g + n), FallbackCall err (attempts g + n)]\<rparr>))"
    using assms(3) ok assms(5,6,2) by (intro run_exhausts) (simp_all add: fresh)
  then show ?thesis
    by (cases "fallback g") (simp_all add: attempt_def fresh del: world_after.simps)
qed

lemma after_retry_platform: "platform (after_retry g fn e) = platform e"
  by (simp add: after_retry_def backoff_platform call_eq) (simp add: platform_def)

lemma backoff_waits_exponential:
  assumes "delay g = Some (DelayExponential factor d)"
    and "exponentialDelay e factor d (int (attempts g) - 2) \<noteq> 0"
  shows "waits (trace (snd (backoff g e))) =
     waits (trace e) @ [exponentialDelay e factor d (int (attempts g) - 2)]"
  using assms
  by (simp add: backoff_def currentDelay_def raw_delay_def waits_append)

lemma after_retry_waits_exponential:
  assumes "delay g = Some (DelayExponential factor d)"
    and "exponentialDelay e factor d (int (attempts g) - 1) \<noteq> 0"
  shows "waits (trace (after_retry g fn e)) =
     waits (trace e) @ [exponentialDelay e factor d (int (attempts g) - 1)]"
proof -
  let ?e1 = "snd (call fn (attempts g) e)"
  have p: "platform ?e1 = platform e" by (simp add: call_eq platform_def)
  have ed: "exponentialDelay ?e1 factor d k = exponentialDelay e factor d k" for k
    by (rule exponentialDelay_cong [OF p])
  have w1: "waits (trace ?e1) = waits (trace e)" by (simp add: call_eq waits_append)
  have "exponentialDelay ?e1 factor d (int (attempts (retried g)) - 2) \<noteq> 0"
    using assms(2) by (simp add: ed)
  then have "waits (trace (snd (backoff (retried g) ?e1))) =
     waits (trace ?e1) @ [exponentialDelay ?e1 factor d (int (attempts (retried g)) - 2)]"
    using assms(1) by (intro backoff_waits_exponential) simp_all
  then show ?thesis
    using assms(1) by (simp add: after_retry_def ed w1)
qed

lemma failures_waits_exponential:
  assumes "delay g = Some (DelayExponential factor d)" and "delays_never_vanish g e"
    and "int (retries g) + int j \<le> retryCount g"
  shows "waits (trace (snd (failures g fn e j))) =
     waits (trace e) @ map (\<lambda>r. exponentialDelay e factor d (int (attempts g) + int r - 1)) [0..<j]"
  using assms
proof (induction j arbitrary: g e)
  case 0
  then show ?case by simp
next
  case (Suc j)
  let ?e' = "after_retry g fn e"
  have budget: "int (retries g) < retryCount g" using Suc.prems(3) by simp
  have nz: "exponentialDelay e factor d (int (attempts g) - 1) \<noteq> 0"
    using Suc.prems(2) budget Suc.prems(1) by (rule next_exponential_delay)
  have p: "platform ?e' = platform e" by (rule after_retry_platform)
  have nv: "delays_never_vanish (retried g) ?e'"
    using delays_never_vanish_cong [OF p, of "retried g"] Suc.prems(2)
    by (simp add: delays_never_vanish_retried)
  have "waits (trace (snd (failures (retried g) fn ?e' j))) =
     waits (trace ?e') @
       map (\<lambda>r. exponentialDelay ?e' factor d (int (attempts (retried g)) + int r - 1)) [0..<j]"
    using Suc.prems(1) nv Suc.prems(3) by (intro Suc.IH) simp_all
  also have "\<dots> = waits (trace e) @
      exponentialDelay e factor d (int (attempts g) - 1) #
       map (\<lambda>r. exponentialDelay e factor d (int (attempts g) + int (Suc r) - 1)) [0..<j]"
    using Suc.prems(1) nz
    by (simp add: after_retry_waits_exponential exponentialDelay_cong [OF p] add.commute
        add.left_commute)
  also have "\<dots> = waits (trace e) @
      map (\<lambda>r. exponentialDelay e factor d (int (attempts g) + int r - 1)) [0..<Suc j]"
    by (simp only: map_upt_Suc) simp
  finally show ?case by (simp only: failures_Suc)
qed

lemma member_rethrown_skip:
  "c \<in> set (skipErrors g) \<Longrightarrow> rethrown g (JObj (Some c) m)"
  by (auto simp: rethrown_def)

lemma nonmember_rethrown_only:
  "onlyErrors g \<noteq> [] \<Longrightarrow> c \<notin> set (onlyErrors g) \<Longrightarrow> rethrown g (JObj (Some c) m)"
  by (auto simp: rethrown_def)

lemma build_fields:
  assumes "build b arrs = Inr g"
  shows "delay g = b_delay b" and "b_retryCount b = Some (retryCount g)"
    and "retries g = 0"
    and "validateGritConfig (Some (retryCount g)) (b_delay b) (b_timeout b) arrs = Inr ()"
  using assms by (auto simp: build_def new_Grit_def split: sum.splits option.splits)

lemma build_array_mismatch:
  assumes "b_retryCount b = Some n" and "b_delay b = Some (DelayArray a)"
    and "int (length (arrs a)) \<noteq> n"
  shows "build b arrs = Inl (GritError ''Delay array length must be equal to retry count'')"
  using assms by (simp add: build_def new_Grit_def)

subsection \<open>Doubles\<close>

lemma round_half_even_int: "round_half_even (of_int n) = n"
  by (simp add: round_half_even_def)

lemma to_double_grid:
  assumes "x = of_int n * q" and "double_ulp x = q" and "q \<noteq> 0"
  shows "to_double x = x"
  using assms by (simp add: to_double_def round_half_even_int)

lemma to_double_int:
  assumes "\<bar>m\<bar> < 2 ^ 53"
  shows "to_double (of_int m) = of_int m"
proof (cases "m = 0")
  case True
  then show ?thesis by (simp add: to_double_def)
next
  case False
  define e where "e = \<lfloor>log 2 \<bar>real_of_int m\<bar>\<rfloor>"
  have lo: "1 \<le> \<bar>real_of_int m\<bar>" using False by (simp flip: of_int_abs)
  have hi: "\<bar>real_of_int m\<bar> < 2 ^ 53"
    using assms by (metis of_int_abs of_int_less_numeral_power_cancel_iff)
  have "0 \<le> log 2 \<bar>real_of_int m\<bar>" using lo by simp
  then have e0: "0 \<le> e" by (simp add: e_def)
  have "log 2 \<bar>real_of_int m\<bar> < log 2 (2 ^ 53)" using lo hi by (subst log_less_cancel_iff) simp_all
  moreover have "log 2 ((2::real) ^ 53) = 53" by (subst log_pow_cancel) simp_all
  ultimately have "log 2 \<bar>real_of_int m\<bar> < 53" by (simp only:)
  then have e52: "e \<le> 52" unfolding e_def by linarith
  have ulp: "double_ulp (of_int m) = 2 powi (e - 52)"
    using e0 by (simp add: double_ulp_def e_def max_def)
  have "(2::real) powi (52 - e) = 2 ^ nat (52 - e)"
    using e52 by (simp add: power_int_def)
  moreover have "(2::real) powi (e - 52) * 2 powi (52 - e) = 1"
    by (simp flip: power_int_add)
  ultimately have "real_of_int m = of_int (m * 2 ^ nat (52 - e)) * 2 powi (e - 52)"
    by (simp add: mult.assoc mult.commute)
  moreover have "(2::real) powi (e - 52) \<noteq> 0" by (simp add: power_int_eq_0_iff)
  ultimately show ?thesis
    using ulp by (intro to_double_grid [where n = "m * 2 ^ nat (52 - e)" and q = "2 powi (e - 52)"])
qed

lemma to_double_examples:
  "to_double 1 = 1" "to_double 2 = 2" "to_double 4 = 4"
  "to_double 100 = 100" "to_double 200 = 200" "to_double 400 = 400"
  using to_double_int [of 1] to_double_int [of 2] to_double_int [of 4]
    to_double_int [of 100] to_double_int [of 200] to_double_int [of 400]
  by simp_all

lemma two_powr_int: "(2::real) powr of_int j = 2 powi j"
  by (rule powr_real_of_int') simp_all

lemma log2_powi: "log 2 ((2::real) powi k) = of_int k"
  unfolding two_powr_int [symmetric] by (rule log_powr_cancel) simp_all

lemma floor_log2_eq:
  assumes "2 powi k \<le> x" and "x < 2 powi (k + 1)"
  shows "\<lfloor>log 2 x\<rfloor> = k"
proof -
  have pos: "0 < x" using assms(1) by (smt (verit) zero_less_power_int)
  have "2 powr of_int k \<le> x" using assms(1) by (simp only: two_powr_int)
  moreover have "x < 2 powr (of_int k + 1)"
    using assms(2) two_powr_int [of "k + 1"] by simp
  ultimately show ?thesis using pos by (subst floor_log_eq_powr_iff) simp_all
qed

lemma round_half_even_small:
  assumes "\<bar>y\<bar> \<le> 1 / 2"
  shows "round_half_even y = 0"
proof -
  consider "y = 1 / 2" | "y = - 1 / 2" | "- 1 / 2 < y" "y < 1 / 2" using assms by fastforce
  then show ?thesis
  proof cases
    case 1
    show ?thesis unfolding 1 by (simp add: round_half_even_def frac_def)
  next
    case 2
    have "\<lfloor>- 1 / 2 :: real\<rfloor> = - 1" by linarith
    then show ?thesis unfolding 2 by (simp add: round_half_even_def frac_def)
  next
    case 3
    have f: "\<lfloor>y + 1 / 2\<rfloor> = 0" using 3 by linarith
    have "frac y \<noteq> 1 / 2"
    proof (cases "0 \<le> y")
      case True
      with 3 have "\<lfloor>y\<rfloor> = 0" by linarith
      with 3 show ?thesis by (simp add: frac_def)
    next
      case False
      with 3 have "\<lfloor>y\<rfloor> = - 1" by linarith
      with 3 show ?thesis by (simp add: frac_def)
    qed
    with f show ?thesis by (simp add: round_half_even_def)
  qed
qed

lemma double_ulp_subnormal:
  assumes "x \<noteq> 0" and "\<bar>x\<bar> < 2 powi (- 1022)"
  shows "double_ulp x = 2 powi (- 1074)"
proof -
  have "log 2 \<bar>x\<bar> < log 2 (2 powi (- 1022))"
    using assms by (subst log_less_cancel_iff) simp_all
  then have "log 2 \<bar>x\<bar> < of_int (- 1022)" by (simp only: log2_powi)
  then have "\<lfloor>log 2 \<bar>x\<bar>\<rfloor> \<le> - 1022" by linarith
  then show ?thesis by (simp add: double_ulp_def max_def)
qed

lemma to_double_subnormal_grid:
  assumes "\<bar>real_of_int n\<bar> < 2 ^ 52"
  shows "to_double (of_int n * 2 powi (- 1074)) = of_int n * 2 powi (- 1074)"
proof (cases "n = 0")
  case True
  then show ?thesis by (simp add: to_double_def)
next
  case False
  have q: "(2::real) powi (- 1074) \<noteq> 0" by (simp add: power_int_eq_0_iff)
  have "\<bar>real_of_int n * 2 powi (- 1074)\<bar> = \<bar>real_of_int n\<bar> * 2 powi (- 1074)"
    by (simp add: abs_mult)
  also have "\<dots> < 2 ^ 52 * 2 powi (- 1074)"
    using assms by (intro mult_strict_right_mono) simp_all
  also have "\<dots> = 2 powi (- 1022)"
    using power_int_add [of "2::real" 52 "- 1074"] by simp
  finally have "double_ulp (of_int n * 2 powi (- 1074)) = 2 powi (- 1074)"
    using False q by (intro double_ulp_subnormal) simp_all
  then show ?thesis using q by (intro to_double_grid [where n = n and q = "2 powi (- 1074)"]) simp_all
qed

lemma to_double_underflow:
  assumes "\<bar>x\<bar> \<le> 2 powi (- 1075)"
  shows "to_double x = 0"
proof (cases "x = 0")
  case True
  then show ?thesis by (simp add: to_double_def)
next
  case False
  have half: "(2::real) powi (- 1075) = 2 powi (- 1074) / 2"
    using power_int_add [of "2::real" "- 1074" "- 1"] by simp
  have "(2::real) powi (- 1075) < 2 powi (- 1022)"
    by (rule power_int_strict_increasing) simp_all
  with assms have "\<bar>x\<bar> < 2 powi (- 1022)" by simp
  with False have ulp: "double_ulp x = 2 powi (- 1074)" by (rule double_ulp_subnormal)
  have pos: "0 < (2::real) powi (- 1074)" by simp
  have "\<bar>x / 2 powi (- 1074)\<bar> = \<bar>x\<bar> / 2 powi (- 1074)" by (simp add: abs_divide)
  also have "\<dots> \<le> (2 powi (- 1074) / 2) / 2 powi (- 1074)"
    using assms pos unfolding half by (intro divide_right_mono) simp_all
  also have "\<dots> = 1 / 2" using pos by simp
  finally have r: "round_half_even (x / 2 powi (- 1074)) = 0" by (rule round_half_even_small)
  show ?thesis unfolding to_double_def ulp r by simp
qed

lemma MIN_VALUE_pos: "0 < MIN_VALUE" "MIN_VALUE \<noteq> 0" "\<not> MIN_VALUE \<le> 0"
  by (simp_all add: MIN_VALUE_def)

lemma to_double_MIN_VALUE: "to_double MIN_VALUE = MIN_VALUE"
  using to_double_subnormal_grid [of 1] by (simp add: MIN_VALUE_def)

lemma to_double_half_MIN_VALUE: "to_double (MIN_VALUE / 2) = 0"
proof -
  have "(2::real) powi (- 1075) = 2 powi (- 1074) / 2"
    using power_int_add [of "2::real" "- 1074" "- 1"] by simp
  then have "\<bar>MIN_VALUE / 2\<bar> \<le> 2 powi (- 1075)" by (simp add: MIN_VALUE_def)
  then show ?thesis by (rule to_double_underflow)
qed

lemma to_double_half: "to_double (1 / 2) = 1 / 2"
proof -
  have "\<lfloor>log 2 (1 / 2 :: real)\<rfloor> = - 1" by (rule floor_log2_eq) simp_all
  then have ulp: "double_ulp (1 / 2) = 2 powi (- 53)" by (simp add: double_ulp_def)
  have "(2::real) powi 52 * 2 powi (- 53) = 2 powi (- 1)"
    by (simp flip: power_int_add)
  then have "(1 / 2 :: real) = of_int (2 ^ 52) * 2 powi (- 53)" by simp
  moreover have "(2::real) powi (- 53) \<noteq> 0" by (simp add: power_int_eq_0_iff)
  ultimately show ?thesis using ulp
    by (intro to_double_grid [where n = "2 ^ 52" and q = "2 powi (- 53)"])
qed

subsection \<open>Facts about the example runs\<close>

lemma example_engine_built:
  "new_Grit (example_props n) (arrays example_env) = Inr (example_engine n)"
  by (simp add: new_Grit_def example_props_def example_engine_def)

lemma example_env_facts:
  "trace example_env = []" "world example_env = 0"
  by (simp_all add: example_env_def)

lemma example_engine_facts:
  "retryCount (example_engine n) = n" "never_aborted (example_engine n)"
  "fallback (example_engine n) = None"
  by (simp_all add: example_engine_def never_aborted_def)

lemma no_delay_never_vanishes: "delay g = None \<Longrightarrow> delays_never_vanish g e"
  by (simp add: delays_never_vanish_def)

lemma all_less_Suc: "(\<forall>j<Suc n. P j) = (P n \<and> (\<forall>j<n. P j))"
  by (auto simp: less_Suc_eq)

lemma answer_always_failing:
  "answer always_failing a w j = Rejected (JObj (Some ErrorClass) (Text ''Always fails''))"
  by (simp add: answer_def always_failing_def)

lemma answer_throws_string: "answer throws_string a w j = Rejected (JStr ''string error'')"
  by (simp add: answer_def throws_string_def)

lemma upt_examples: "[Suc 0..<4] = [Suc 0, 2, 3]" "[Suc 0..<5] = [Suc 0, 2, 3, 4]"
  by code_simp+

lemma exponential_example_values:
  "exponentialDelay example_env (Some 2) 100 0 = 100"
  "exponentialDelay example_env (Some 2) 100 1 = 200"
  "exponentialDelay example_env (Some 2) 100 2 = 400"
  "exponentialDelay example_env None 100 k = 100"
  by (simp_all add: exponentialDelay_def example_env_def to_double_examples)

lemma example_exponential_never_vanishes:
  assumes "delay g = Some (DelayExponential f 100)" and "f = Some 2 \<or> f = None"
    and "retryCount g = 3" and "attempts g = 1" and "retries g = 0"
  shows "delays_never_vanish g example_env"
proof -
  have "exponentialDelay example_env f 100 k \<noteq> 0" if "0 \<le> k" "k < 3" for k
  proof -
    from that have "k = 0 \<or> k = 1 \<or> k = 2" by arith
    with assms(2) show ?thesis by (auto simp: exponential_example_values)
  qed
  with assms show ?thesis by (simp add: delays_never_vanish_def)
qed

lemma to_double_rounds:
  "to_double 27021597764222973 = 27021597764222972"
proof -
  have "\<lfloor>log 2 (27021597764222973 :: real)\<rfloor> = 54" by (rule floor_log2_eq) simp_all
  then have ulp: "double_ulp 27021597764222973 = 4" by (simp add: double_ulp_def)
  have fl: "\<lfloor>27021597764222973 / 4 :: real\<rfloor> = 6755399441055743" by simp
  have fl2: "\<lfloor>27021597764222973 / 4 + 1 / 2 :: real\<rfloor> = 6755399441055743" by linarith
  have "frac (27021597764222973 / 4 :: real) \<noteq> 1 / 2" unfolding frac_def fl by simp
  then have "round_half_even (27021597764222973 / 4) = 6755399441055743"
    unfolding round_half_even_def using fl2 by simp
  then show ?thesis unfolding to_double_def using ulp by simp
qed

text \<open>
  A delay that is rounded: \<^verbatim>\<open>{delay: 2 ** 53 - 1, factor: 3}\<close>. The product computed for
  the second retry is the double next to \<open>(2 ^ 53 - 1) * 3\<close>, not that number.
\<close>

lemma rounding_values:
  "js_pow example_env 3 1 = 3"
  "exponentialDelay example_env (Some 3) 9007199254740991 1 = 27021597764222972"
  "exponentialDelay example_env (Some 3) 9007199254740991 1 \<noteq> 9007199254740991 * 3 ^ 1"
  using to_double_int [of 3]
  by (simp_all add: exponentialDelay_def example_env_def to_double_rounds)

text \<open>
  A delay that underflows: \<^verbatim>\<open>{retryCount: 2, delay: {delay: Number.MIN_VALUE, factor: 0.5}}\<close>
  with an operation that always fails. The first retry waits \<^verbatim>\<open>Number.MIN_VALUE\<close>; the
  delay of the second one is half of it, which rounds to 0, so \<^verbatim>\<open>#currentDelay\<close> throws:
  the run ends after two calls with the \<^verbatim>\<open>GritError\<close>, and the fallback is not called.
\<close>

lemma exponentialDelay_update:
  "exponentialDelay (e\<lparr>world := w\<rparr>) = exponentialDelay e"
  "exponentialDelay (e\<lparr>trace := t\<rparr>) = exponentialDelay e"
  by (simp_all add: exponentialDelay_def fun_eq_iff)

lemma underflow_values:
  "exponentialDelay example_env (Some (1 / 2)) MIN_VALUE 0 = MIN_VALUE"
  "exponentialDelay example_env (Some (1 / 2)) MIN_VALUE 1 = 0"
  by (simp_all add: exponentialDelay_def example_env_def to_double_examples to_double_half
      to_double_MIN_VALUE to_double_half_MIN_VALUE)

lemma underflow_example:
  "new_Grit ((example_props 2)\<lparr>props_fallback := Some example_fallback,
       props_delay := Some (DelayExponential (Some (1 / 2)) MIN_VALUE)\<rparr>) (arrays example_env)
     = Inr ((example_engine 2)\<lparr>fallback := Some example_fallback,
         delay := Some (DelayExponential (Some (1 / 2)) MIN_VALUE)\<rparr>)"
  "\<not> delays_never_vanish ((example_engine 2)\<lparr>fallback := Some example_fallback,
         delay := Some (DelayExponential (Some (1 / 2)) MIN_VALUE)\<rparr>) example_env"
  "fst (attempt ((example_engine 2)\<lparr>fallback := Some example_fallback,
         delay := Some (DelayExponential (Some (1 / 2)) MIN_VALUE)\<rparr>) always_failing example_env)
     = Rejected (GritError ''No delay. Should never happen.'')"
  "trace (snd (snd (attempt ((example_engine 2)\<lparr>fallback := Some example_fallback,
         delay := Some (DelayExponential (Some (1 / 2)) MIN_VALUE)\<rparr>) always_failing example_env)))
     = [Invoke 1, Wait MIN_VALUE, Invoke 2]"
proof -
  let ?g = "(example_engine 2)\<lparr>fallback := Some example_fallback,
         delay := Some (DelayExponential (Some (1 / 2)) MIN_VALUE)\<rparr>"
  show "new_Grit ((example_props 2)\<lparr>props_fallback := Some example_fallback,
       props_delay := Some (DelayExponential (Some (1 / 2)) MIN_VALUE)\<rparr>) (arrays example_env)
     = Inr ?g"
    by (simp add: new_Grit_def example_props_def example_engine_def MIN_VALUE_pos)
  have "\<not> exponentialDelay example_env (Some (1 / 2)) MIN_VALUE 1 \<noteq> 0"
    by (simp add: underflow_values)
  then show "\<not> delays_never_vanish ?g example_env"
    unfolding delays_never_vanish_def
    by (auto simp: example_engine_def intro!: exI [of _ 1])
  have run: "attempt ?g always_failing example_env =
     (Rejected (GritError ''No delay. Should never happen.''),
      (example_engine 2)\<lparr>fallback := Some example_fallback,
         delay := Some (DelayExponential (Some (1 / 2)) MIN_VALUE), attempts := 3, retries := 2\<rparr>,
      example_env\<lparr>world := 2, trace := [Invoke 1, Wait MIN_VALUE, Invoke 2]\<rparr>)"
    by (simp add: attempt_def execute.simps execute_try_def call_eq always_failing_def backoff_def
      currentDelay_def raw_delay_def exponentialDelay_update underflow_values MIN_VALUE_pos
      example_engine_def rethrown_def retried_def example_env_facts)
  show "fst (attempt ?g always_failing example_env)
     = Rejected (GritError ''No delay. Should never happen.'')"
    by (simp add: run)
  show "trace (snd (snd (attempt ?g always_failing example_env)))
     = [Invoke 1, Wait MIN_VALUE, Invoke 2]"
    by (simp add: run)
qed

section \<open>The properties of the specification\<close>

text \<open>
  C4. The specification says that the constructor refuses every fixed scalar delay
  that is not strictly greater than 0, the value 0 included. The code refuses negative
  scalars only: \<^verbatim>\<open>if (delayConfig)\<close> is false for 0, and the check inside is
  \<^verbatim>\<open>delayConfig < 0\<close> under the message ``delay must be greater than 0''. With the
  scalar 0 the engine is built; the negative scalar and the exponential delay 0 are
  refused.
\<close>

theorem scalar_zero_delay_accepted:
  "new_Grit ((example_props 3)\<lparr>props_delay := Some (DelayNumber 0)\<rparr>) (arrays example_env)
     = Inr ((example_engine 3)\<lparr>delay := Some (DelayNumber 0)\<rparr>)
   \<and> new_Grit ((example_props 3)\<lparr>props_delay := Some (DelayNumber (- 1))\<rparr>) (arrays example_env)
     = Inl (GritError ''delay must be greater than 0'')
   \<and> new_Grit ((example_props 3)\<lparr>props_delay := Some (DelayExponential None 0)\<rparr>) (arrays example_env)
     = Inl (GritError ''delay must be greater than 0'')"
  by (simp add: new_Grit_def example_props_def example_engine_def)

text \<open>
  C1. For a retry count \<open>n\<close> and an operation whose failures are retried: if the
  operation first succeeds at its call number \<open>k \<le> n + 1\<close>, \<^verbatim>\<open>attempt\<close> calls it exactly
  \<open>k\<close> times, with the attempt numbers 1 to \<open>k\<close>, and resolves with that value; if every
  call fails, it calls the operation exactly \<open>n + 1\<close> times and ends with the last
  failure, or with what the fallback answers if there is one. The engine is freshly
  built from a valid configuration, no cancellation signal fires, and no delay that the
  engine computes for a retry is 0: a product of doubles that underflows to 0 makes
  \<^verbatim>\<open>#currentDelay\<close> throw and ends the run before the budget is used.
\<close>

theorem attempt_invocation_count:
  assumes "new_Grit props (arrays e) = Inr g" and "retryCount g = int n"
    and "never_aborted g" and "delays_never_vanish g e" and "trace e = []"
  shows "(1 \<le> k \<and> k \<le> n + 1
            \<and> (\<forall>j<k - 1. fails_retryably g (answer fn 1 (world e) j))
            \<and> answer fn 1 (world e) (k - 1) = Resolved v
          \<longrightarrow> fst (attempt g fn e) = Resolved v
              \<and> invocations (trace (snd (snd (attempt g fn e)))) = [1..<Suc k])
       \<and> ((\<forall>j<n. fails_retryably g (answer fn 1 (world e) j))
            \<and> answer fn 1 (world e) n = Rejected err
          \<longrightarrow> invocations (trace (snd (snd (attempt g fn e)))) = [1..<n + 2]
              \<and> fst (attempt g fn e) =
                  (case fallback g of
                     None \<Rightarrow> Rejected err
                   | Some fb \<Rightarrow> fst (fb err (n + 1) (world_after fn 1 (world e) (n + 1)))))"
proof -
  have fresh: "attempts g = 1" "retries g = 0"
    using assms(1) by (rule new_Grit_fields)+
  have ok: "delay_ok g e" using assms(1,4) by (rule new_Grit_delay_ok)
  have first: "fst (attempt g fn e) = Resolved v
      \<and> invocations (trace (snd (snd (attempt g fn e)))) = [1..<Suc k]"
    if k: "1 \<le> k" "k \<le> n + 1"
      and fails: "\<forall>j<k - 1. fails_retryably g (answer fn 1 (world e) j)"
      and wins: "answer fn 1 (world e) (k - 1) = Resolved v"
  proof -
    have "execute g fn e =
       (Resolved v, fst (failures g fn e (k - 1)),
        (snd (failures g fn e (k - 1)))\<lparr>world := world_after fn (attempts g) (world e) (Suc (k - 1)),
           trace := trace (snd (failures g fn e (k - 1))) @ [Invoke (attempts g + (k - 1))]\<rparr>)"
      using assms(3) ok fails wins k assms(2) by (intro run_resolves) (simp_all add: fresh)
    then show ?thesis
      using k by (simp add: attempt_def failures_invocations invocations_append fresh assms(5))
  qed
  have second: "invocations (trace (snd (snd (attempt g fn e)))) = [1..<n + 2]
      \<and> fst (attempt g fn e) =
          (case fallback g of
             None \<Rightarrow> Rejected err
           | Some fb \<Rightarrow> fst (fb err (n + 1) (world_after fn 1 (world e) (n + 1))))"
    if fails: "\<forall>j<n. fails_retryably g (answer fn 1 (world e) j)"
      and last: "answer fn 1 (world e) n = Rejected err"
  proof -
    have "execute g fn e =
     (case fallback g of
        None \<Rightarrow>
          (Rejected err, fst (failures g fn e n),
           (snd (failures g fn e n))\<lparr>world := world_after fn (attempts g) (world e) (Suc n),
              trace := trace (snd (failures g fn e n)) @ [Invoke (attempts g + n)]\<rparr>)
      | Some fb \<Rightarrow>
          (fst (fb err (attempts g + n) (world_after fn (attempts g) (world e) (Suc n))),
           fst (failures g fn e n),
           (snd (failures g fn e n))
             \<lparr>world := snd (fb err (attempts g + n) (world_after fn (attempts g) (world e) (Suc n))),
              trace := trace (snd (failures g fn e n)) @
                 [Invoke (attempts g + n), FallbackCall err (attempts g + n)]\<rparr>))"
      using assms(3) ok fails last assms(2) by (intro run_exhausts) (simp_all add: fresh)
    then show ?thesis
      by (cases "fallback g")
         (simp_all add: attempt_def failures_invocations invocations_append fresh assms(5)
            del: world_after.simps)
  qed
  from first second show ?thesis by blast
qed

theorem attempt_invocation_count_witness:
  "new_Grit (example_props 3) (arrays example_env) = Inr (example_engine 3)
   \<and> answer flaky 1 (world example_env) 2 = Resolved (JStr ''success'')
   \<and> fst (attempt (example_engine 3) flaky example_env) = Resolved (JStr ''success'')
   \<and> invocations (trace (snd (snd (attempt (example_engine 3) flaky example_env)))) = [1, 2, 3]
   \<and> new_Grit ((example_props 3)\<lparr>props_delay := Some (DelayExponential (Some 2) 100)\<rparr>)
         (arrays example_env)
       = Inr ((example_engine 3)\<lparr>delay := Some (DelayExponential (Some 2) 100)\<rparr>)
   \<and> delays_never_vanish ((example_engine 3)\<lparr>delay := Some (DelayExponential (Some 2) 100)\<rparr>)
         example_env
   \<and> answer always_failing 1 (world example_env) 3 =
        Rejected (JObj (Some ErrorClass) (Text ''Always fails''))
   \<and> invocations (trace (snd (snd (attempt
          ((example_engine 3)\<lparr>delay := Some (DelayExponential (Some 2) 100)\<rparr>)
          always_failing example_env)))) = [1, 2, 3, 4]
   \<and> fst (attempt ((example_engine 3)\<lparr>delay := Some (DelayExponential (Some 2) 100)\<rparr>)
          always_failing example_env) =
        Rejected (JObj (Some ErrorClass) (Text ''Always fails''))"
proof -
  let ?g = "(example_engine 3)\<lparr>delay := Some (DelayExponential (Some 2) 100)\<rparr>"
  have built: "new_Grit (example_props 3) (arrays example_env) = Inr (example_engine 3)"
    by (rule example_engine_built)
  have built2: "new_Grit ((example_props 3)\<lparr>props_delay := Some (DelayExponential (Some 2) 100)\<rparr>)
      (arrays example_env) = Inr ?g"
    by (simp add: new_Grit_def example_props_def example_engine_def)
  have rc: "retryCount (example_engine 3) = int 3" "retryCount ?g = int 3"
    by (simp_all add: example_engine_def)
  have na: "never_aborted (example_engine 3)" "never_aborted ?g"
    by (simp_all add: never_aborted_def example_engine_def)
  have nv: "delays_never_vanish (example_engine 3) example_env"
    by (rule no_delay_never_vanishes) (simp add: example_engine_def)
  have nv2: "delays_never_vanish ?g example_env"
    by (rule example_exponential_never_vanishes [of _ "Some 2"]) (simp_all add: example_engine_def)
  have flaky: "(\<forall>j<3 - 1. fails_retryably (example_engine 3) (answer flaky 1 (world example_env) j))"
    "answer flaky 1 (world example_env) (3 - 1) = Resolved (JStr ''success'')"
    by (simp_all add: numeral_eq_Suc all_less_Suc answer_def flaky_def example_env_facts
        fails_retryably_def rethrown_def example_engine_def)
  have failing: "\<forall>j<3. fails_retryably ?g (answer always_failing 1 (world example_env) j)"
    "answer always_failing 1 (world example_env) 3 = Rejected (JObj (Some ErrorClass) (Text ''Always fails''))"
    by (simp_all add: answer_always_failing fails_retryably_def rethrown_def example_engine_def)
  have fb: "fallback ?g = None" by (simp add: example_engine_def)
  show ?thesis
    using attempt_invocation_count [OF built rc(1) na(1) nv example_env_facts(1),
        of 3 flaky "JStr ''success''" "JUndefined"]
      attempt_invocation_count [OF built2 rc(2) na(2) nv2 example_env_facts(1),
        of 3 always_failing "JUndefined" "JObj (Some ErrorClass) (Text ''Always fails'')"]
      flaky failing built built2 nv2
    by (simp add: upt_examples fb)
qed

text \<open>
  C3. With a fallback configured and a retry count \<open>n\<close>, when the operation fails on all
  \<open>n + 1\<close> attempts the fallback is called exactly once, as the last thing the run does,
  after all \<open>n + 1\<close> calls of the operation, with the last error and the attempt number
  \<open>n + 1\<close>; what it answers is what \<^verbatim>\<open>attempt\<close> settles with. Whatever the operation
  does, the fallback is called at most once, and only by an engine whose retries have
  reached the retry count. As for C1, no cancellation signal fires and no delay computed
  for a retry is 0.
\<close>

theorem fallback_once_after_exhaustion:
  assumes "new_Grit props (arrays e) = Inr g" and "retryCount g = int n"
    and "fallback g = Some fb"
    and "never_aborted g" and "delays_never_vanish g e" and "trace e = []"
    and "\<forall>j<n. fails_retryably g (answer fn 1 (world e) j)"
    and "answer fn 1 (world e) n = Rejected err"
  shows "fallback_calls (trace (snd (snd (attempt g fn e)))) = [(err, n + 1)]
     \<and> (\<exists>tr. trace (snd (snd (attempt g fn e))) = tr @ [FallbackCall err (n + 1)]
             \<and> invocations tr = [1..<n + 2])
     \<and> fst (attempt g fn e) = fst (fb err (n + 1) (world_after fn 1 (world e) (n + 1)))
     \<and> (\<forall>op. length (fallback_calls (trace (snd (snd (attempt g op e))))) \<le> 1
             \<and> (fallback_calls (trace (snd (snd (attempt g op e)))) \<noteq> [] \<longrightarrow>
                  retryCount g \<le> int (retries (fst (snd (attempt g op e))))))"
proof -
  let ?E = "snd (failures g fn e n)"
  have fresh: "attempts g = 1" "retries g = 0"
    using assms(1) by (rule new_Grit_fields)+
  have run: "attempt g fn e =
      (fst (fb err (Suc n) (world_after fn 1 (world e) (Suc n))), fst (failures g fn e n),
       ?E\<lparr>world := snd (fb err (Suc n) (world_after fn 1 (world e) (Suc n))),
          trace := trace ?E @ [Invoke (Suc n), FallbackCall err (Suc n)]\<rparr>)"
    using fresh_run_exhausts [OF assms(1,2,4,5,7,8)] assms(3) by simp
  have inv: "invocations (trace ?E) = [1..<Suc n]"
    by (simp add: failures_invocations fresh assms(6))
  have fbc: "fallback_calls (trace ?E) = []"
    by (simp add: failures_fallback_calls assms(6))
  have a: "fallback_calls (trace (snd (snd (attempt g fn e)))) = [(err, n + 1)]"
    by (simp add: run fallback_calls_append fbc)
  have b: "\<exists>tr. trace (snd (snd (attempt g fn e))) = tr @ [FallbackCall err (n + 1)]
             \<and> invocations tr = [1..<n + 2]"
  proof (intro exI conjI)
    show "trace (snd (snd (attempt g fn e))) = (trace ?E @ [Invoke (Suc n)]) @ [FallbackCall err (n + 1)]"
      by (simp add: run)
    show "invocations (trace ?E @ [Invoke (Suc n)]) = [1..<n + 2]"
      by (simp add: invocations_append inv)
  qed
  have c: "fst (attempt g fn e) = fst (fb err (n + 1) (world_after fn 1 (world e) (n + 1)))"
    by (simp add: run del: world_after.simps)
  have d: "length (fallback_calls (trace (snd (snd (attempt g op e))))) \<le> 1
             \<and> (fallback_calls (trace (snd (snd (attempt g op e)))) \<noteq> [] \<longrightarrow>
                  retryCount g \<le> int (retries (fst (snd (attempt g op e)))))" for op
    using execute_fallback_calls [of g op e] by (auto simp: attempt_def assms(6))
  from a b c d show ?thesis by blast
qed

theorem fallback_once_after_exhaustion_witness:
  "new_Grit ((example_props 3)\<lparr>props_fallback := Some example_fallback,
         props_delay := Some (DelayExponential (Some 2) 100)\<rparr>) (arrays example_env)
     = Inr ((example_engine 3)\<lparr>fallback := Some example_fallback,
         delay := Some (DelayExponential (Some 2) 100)\<rparr>)
   \<and> delays_never_vanish ((example_engine 3)\<lparr>fallback := Some example_fallback,
         delay := Some (DelayExponential (Some 2) 100)\<rparr>) example_env
   \<and> fallback_calls (trace (snd (snd (attempt ((example_engine 3)\<lparr>fallback := Some example_fallback,
         delay := Some (DelayExponential (Some 2) 100)\<rparr>)
         always_failing example_env)))) = [(JObj (Some ErrorClass) (Text ''Always fails''), 4)]
   \<and> fst (attempt ((example_engine 3)\<lparr>fallback := Some example_fallback,
         delay := Some (DelayExponential (Some 2) 100)\<rparr>) always_failing example_env)
       = Resolved (JStr ''fallback'')"
proof -
  let ?g = "(example_engine 3)\<lparr>fallback := Some example_fallback,
         delay := Some (DelayExponential (Some 2) 100)\<rparr>"
  have built: "new_Grit ((example_props 3)\<lparr>props_fallback := Some example_fallback,
         props_delay := Some (DelayExponential (Some 2) 100)\<rparr>) (arrays example_env) = Inr ?g"
    by (simp add: new_Grit_def example_props_def example_engine_def)
  have rc: "retryCount ?g = int 3" by (simp add: example_engine_def)
  have fb: "fallback ?g = Some example_fallback" by simp
  have na: "never_aborted ?g" by (simp add: never_aborted_def example_engine_def)
  have nv: "delays_never_vanish ?g example_env"
    by (rule example_exponential_never_vanishes [of _ "Some 2"]) (simp_all add: example_engine_def)
  have fails: "\<forall>j<3. fails_retryably ?g (answer always_failing 1 (world example_env) j)"
    by (simp add: answer_always_failing fails_retryably_def rethrown_def example_engine_def)
  have last: "answer always_failing 1 (world example_env) 3 =
      Rejected (JObj (Some ErrorClass) (Text ''Always fails''))"
    by (rule answer_always_failing)
  show ?thesis
    using fallback_once_after_exhaustion [OF built rc fb na nv example_env_facts(1) fails last]
      built nv
    by (simp add: example_fallback_def)
qed

text \<open>
  C8. Thrown values that expose no class (strings, null, objects without a constructor)
  pass the filters whatever \<^verbatim>\<open>skipErrors\<close> and \<^verbatim>\<open>onlyErrors\<close> hold: an operation that
  always throws such values is called \<open>n + 1\<close> times, until the budget is exhausted, and
  the run ends with the last value thrown or with the fallback's answer. As for C1, no
  cancellation signal fires and no delay computed for a retry is 0.
\<close>

theorem classless_errors_retried_to_exhaustion:
  assumes "new_Grit props (arrays e) = Inr g" and "retryCount g = int n"
    and "never_aborted g" and "delays_never_vanish g e" and "trace e = []"
    and "\<forall>j\<le>n. \<exists>err. answer fn 1 (world e) j = Rejected err \<and> constructor_of err = None"
  shows "invocations (trace (snd (snd (attempt g fn e)))) = [1..<n + 2]
     \<and> (\<exists>err. answer fn 1 (world e) n = Rejected err
           \<and> fst (attempt g fn e) =
               (case fallback g of
                  None \<Rightarrow> Rejected err
                | Some fb \<Rightarrow> fst (fb err (n + 1) (world_after fn 1 (world e) (n + 1)))))"
proof -
  let ?E = "snd (failures g fn e n)"
  have fresh: "attempts g = 1" "retries g = 0"
    using assms(1) by (rule new_Grit_fields)+
  from assms(6) obtain err where last: "answer fn 1 (world e) n = Rejected err" by auto
  have fails: "\<forall>j<n. fails_retryably g (answer fn 1 (world e) j)"
  proof (intro allI impI)
    fix j assume "j < n"
    with assms(6) obtain x where "answer fn 1 (world e) j = Rejected x" "constructor_of x = None"
      by (meson less_imp_le)
    then show "fails_retryably g (answer fn 1 (world e) j)"
      by (simp add: fails_retryably_def classless_not_rethrown)
  qed
  have inv: "invocations (trace ?E) = [1..<Suc n]"
    by (simp add: failures_invocations fresh assms(5))
  have run: "attempt g fn e =
     (case fallback g of
        None \<Rightarrow>
          (Rejected err, fst (failures g fn e n),
           ?E\<lparr>world := world_after fn 1 (world e) (Suc n),
              trace := trace ?E @ [Invoke (Suc n)]\<rparr>)
      | Some fb \<Rightarrow>
          (fst (fb err (Suc n) (world_after fn 1 (world e) (Suc n))),
           fst (failures g fn e n),
           ?E\<lparr>world := snd (fb err (Suc n) (world_after fn 1 (world e) (Suc n))),
              trace := trace ?E @ [Invoke (Suc n), FallbackCall err (Suc n)]\<rparr>))"
    using assms(1,2,3,4) fails last by (rule fresh_run_exhausts)
  have a: "invocations (trace (snd (snd (attempt g fn e)))) = [1..<n + 2]"
    by (cases "fallback g") (simp_all add: run invocations_append inv)
  have b: "fst (attempt g fn e) =
               (case fallback g of
                  None \<Rightarrow> Rejected err
                | Some fb \<Rightarrow> fst (fb err (n + 1) (world_after fn 1 (world e) (n + 1))))"
    by (cases "fallback g") (simp_all add: run del: world_after.simps)
  from a b last show ?thesis by blast
qed

theorem classless_errors_retried_to_exhaustion_witness:
  "new_Grit ((example_props 3)\<lparr>props_onlyErrors := Some [UserClass 0],
         props_delay := Some (DelayExponential (Some 2) 100)\<rparr>) (arrays example_env)
     = Inr ((example_engine 3)\<lparr>onlyErrors := [UserClass 0],
         delay := Some (DelayExponential (Some 2) 100)\<rparr>)
   \<and> delays_never_vanish ((example_engine 3)\<lparr>onlyErrors := [UserClass 0],
         delay := Some (DelayExponential (Some 2) 100)\<rparr>) example_env
   \<and> invocations (trace (snd (snd (attempt ((example_engine 3)\<lparr>onlyErrors := [UserClass 0],
         delay := Some (DelayExponential (Some 2) 100)\<rparr>)
         throws_string example_env)))) = [1, 2, 3, 4]
   \<and> fst (attempt ((example_engine 3)\<lparr>onlyErrors := [UserClass 0],
         delay := Some (DelayExponential (Some 2) 100)\<rparr>) throws_string example_env)
       = Rejected (JStr ''string error'')"
proof -
  let ?g = "(example_engine 3)\<lparr>onlyErrors := [UserClass 0],
         delay := Some (DelayExponential (Some 2) 100)\<rparr>"
  have built: "new_Grit ((example_props 3)\<lparr>props_onlyErrors := Some [UserClass 0],
         props_delay := Some (DelayExponential (Some 2) 100)\<rparr>) (arrays example_env) = Inr ?g"
    by (simp add: new_Grit_def example_props_def example_engine_def)
  have rc: "retryCount ?g = int 3" by (simp add: example_engine_def)
  have na: "never_aborted ?g" by (simp add: never_aborted_def example_engine_def)
  have nv: "delays_never_vanish ?g example_env"
    by (rule example_exponential_never_vanishes [of _ "Some 2"]) (simp_all add: example_engine_def)
  have fails: "\<forall>j\<le>3. \<exists>err. answer throws_string 1 (world example_env) j = Rejected err
      \<and> constructor_of err = None"
    by (simp add: answer_throws_string)
  have fb: "fallback ?g = None" by (simp add: example_engine_def)
  show ?thesis
    using classless_errors_retried_to_exhaustion [OF built rc na nv example_env_facts(1) fails]
      built nv
    by (simp add: answer_throws_string upt_examples fb)
qed

text \<open>
  C5. With an exponential delay \<^verbatim>\<open>{delay: d, factor: f}\<close> and no jitter, the wait before
  the \<open>i\<close>-th retry is \<open>d * f ^ (i - 1)\<close> as the platform computes it: the product, in
  doubles, of \<open>d\<close> and \<^verbatim>\<open>Math.pow(f, i - 1)\<close>; without a factor the base is 1. Where the
  two operations do not round, the wait is the number \<open>d * f ^ (i - 1)\<close> itself, and \<open>d\<close>
  without a factor. The waits are the delays handed to \<^verbatim>\<open>setTimeout\<close> by \<^verbatim>\<open>#backoff\<close>,
  in the order of the trace; the \<open>i\<close>-th retry takes place when the first \<open>i\<close> calls fail
  and are retried, \<open>i\<close> is within the retry count, and no delay computed for a retry
  is 0. The factor is not 0: \<^verbatim>\<open>factor || 1\<close> reads the factor 0 as an absent one.
\<close>

theorem exponential_delay_waits:
  assumes "new_Grit props (arrays e) = Inr g" and "retryCount g = int n"
    and "delay g = Some (DelayExponential factor d)"
    and "never_aborted g" and "delays_never_vanish g e" and "trace e = []"
    and "1 \<le> i" and "i \<le> n"
    and "\<forall>j<i. fails_retryably g (answer fn 1 (world e) j)"
  shows "i \<le> length (waits (trace (snd (snd (attempt g fn e)))))
     \<and> (\<forall>f. factor = Some f \<and> f \<noteq> 0 \<longrightarrow>
            waits (trace (snd (snd (attempt g fn e)))) ! (i - 1) =
              js_mul e d (js_pow e f (int i - 1)))
     \<and> (factor = None \<longrightarrow>
            waits (trace (snd (snd (attempt g fn e)))) ! (i - 1) =
              js_mul e d (js_pow e 1 (int i - 1)))
     \<and> (\<forall>f. factor = Some f \<and> f \<noteq> 0
              \<and> js_pow e f (int i - 1) = f ^ (i - 1)
              \<and> js_mul e d (f ^ (i - 1)) = d * f ^ (i - 1) \<longrightarrow>
            waits (trace (snd (snd (attempt g fn e)))) ! (i - 1) = d * f ^ (i - 1))
     \<and> (factor = None \<and> js_pow e 1 (int i - 1) = 1 \<and> js_mul e d 1 = d \<longrightarrow>
            waits (trace (snd (snd (attempt g fn e)))) ! (i - 1) = d)"
proof -
  let ?G = "fst (failures g fn e i)" and ?E = "snd (failures g fn e i)"
  let ?W = "waits (trace (snd (snd (attempt g fn e))))"
  have fresh: "attempts g = 1" "retries g = 0"
    using assms(1) by (rule new_Grit_fields)+
  have ok: "delay_ok g e" using assms(1,5) by (rule new_Grit_delay_ok)
  have "execute g fn e = execute ?G fn ?E"
    using assms(4) ok assms(9) assms(8,2) by (intro execute_unroll) (simp_all add: fresh)
  moreover obtain tr where "trace (snd (snd (execute ?G fn ?E))) = trace ?E @ tr"
    using execute_extends_trace [of ?G fn ?E] by auto
  ultimately have "?W = waits (trace ?E) @ waits tr"
    by (simp add: attempt_def waits_append)
  moreover have "waits (trace ?E) = map (\<lambda>r. exponentialDelay e factor d (int r)) [0..<i]"
    using failures_waits_exponential [OF assms(3,5), of i fn] assms(8,2)
    by (simp add: fresh assms(6))
  ultimately have W: "?W = map (\<lambda>r. exponentialDelay e factor d (int r)) [0..<i] @ waits tr"
    by simp
  from W have len: "i \<le> length ?W" by simp
  have "int (i - 1) = int i - 1" using assms(7) by simp
  with W assms(7) have nth: "?W ! (i - 1) = js_mul e d (js_pow e (factor_or_1 factor) (int i - 1))"
    by (simp add: nth_append exponentialDelay_def)
  have a: "?W ! (i - 1) = js_mul e d (js_pow e f (int i - 1))" if "factor = Some f" "f \<noteq> 0" for f
    using nth that by simp
  have b: "?W ! (i - 1) = js_mul e d (js_pow e 1 (int i - 1))" if "factor = None"
    using nth that by simp
  from len a b show ?thesis by auto
qed

theorem exponential_delay_waits_witness:
  "new_Grit ((example_props 3)\<lparr>props_delay := Some (DelayExponential (Some 2) 100)\<rparr>) (arrays example_env)
     = Inr ((example_engine 3)\<lparr>delay := Some (DelayExponential (Some 2) 100)\<rparr>)
   \<and> delays_never_vanish ((example_engine 3)\<lparr>delay := Some (DelayExponential (Some 2) 100)\<rparr>)
         example_env
   \<and> js_pow example_env 2 2 = 4 \<and> js_mul example_env 100 4 = 400
   \<and> 3 \<le> length (waits (trace (snd (snd (attempt
          ((example_engine 3)\<lparr>delay := Some (DelayExponential (Some 2) 100)\<rparr>)
          always_failing example_env)))))
   \<and> waits (trace (snd (snd (attempt
          ((example_engine 3)\<lparr>delay := Some (DelayExponential (Some 2) 100)\<rparr>)
          always_failing example_env)))) ! 2 = 400
   \<and> waits (trace (snd (snd (attempt
          ((example_engine 3)\<lparr>delay := Some (DelayExponential None 100)\<rparr>)
          always_failing example_env)))) ! 2 = 100"
proof -
  let ?g = "\<lambda>f. (example_engine 3)\<lparr>delay := Some (DelayExponential f 100)\<rparr>"
  have built: "new_Grit ((example_props 3)\<lparr>props_delay := Some (DelayExponential f 100)\<rparr>)
      (arrays example_env) = Inr (?g f)" for f
    by (simp add: new_Grit_def example_props_def example_engine_def)
  have rc: "retryCount (?g f) = int 3" for f by (simp add: example_engine_def)
  have dl: "delay (?g f) = Some (DelayExponential f 100)" for f by simp
  have na: "never_aborted (?g f)" for f by (simp add: never_aborted_def example_engine_def)
  have nv: "delays_never_vanish (?g f) example_env" if "f = Some 2 \<or> f = None" for f
    using that by (intro example_exponential_never_vanishes [of _ f]) (simp_all add: example_engine_def)
  have fails: "\<forall>j<3. fails_retryably (?g f) (answer always_failing 1 (world example_env) j)" for f
    by (simp add: answer_always_failing fails_retryably_def rethrown_def example_engine_def)
  have i: "1 \<le> (3::nat)" "(3::nat) \<le> 3" by simp_all
  have exact: "js_pow example_env 2 2 = 4" "js_mul example_env 100 4 = 400"
    "js_pow example_env 1 2 = 1" "js_mul example_env 100 1 = 100"
    by (simp_all add: example_env_def to_double_examples)
  show ?thesis
    using exponential_delay_waits [OF built rc dl na nv example_env_facts(1) i fails, of "Some 2"]
      exponential_delay_waits [OF built rc dl na nv example_env_facts(1) i fails, of None]
      built [of "Some 2"] nv [of "Some 2"] exact
    by simp
qed

text \<open>
  C6. An attempt that fails, while the retry budget is not exhausted, with an error whose
  class is in \<^verbatim>\<open>skipErrors\<close> ends the run with that error, whatever \<^verbatim>\<open>onlyErrors\<close>
  holds: the engine's counters stay as they are, and nothing happens after the attempt
  (no wait, no call of the fallback, no further call of the operation).
\<close>

theorem skipErrors_before_onlyErrors:
  assumes "execute_try g fn e = (Rejected (JObj (Some c) m), e1)"
    and "int (retries g) < retryCount g"
    and "c \<in> set (skipErrors g)"
  shows "execute g fn e = (Rejected (JObj (Some c) m), g, e1)
     \<and> waits (trace e1) = waits (trace e)
     \<and> fallback_calls (trace e1) = fallback_calls (trace e)
     \<and> (trace e1 = trace e \<or> trace e1 = trace e @ [Invoke (attempts g)])"
proof -
  have "rethrown g (JObj (Some c) m)" using assms(3) by (rule member_rethrown_skip)
  with assms(1,2) have "execute g fn e = (Rejected (JObj (Some c) m), g, e1)"
    by (rule execute_rethrown)
  then show ?thesis
    using execute_try_waits [of g fn e] execute_try_fallback_calls [of g fn e]
      execute_try_invokes_at_most_once [of g fn e] assms(1) by simp
qed

theorem skipErrors_before_onlyErrors_witness:
  "execute_try ((example_engine 3)\<lparr>skipErrors := [UserClass 2], onlyErrors := [UserClass 2]\<rparr>)
       throws_validation example_env
     = (Rejected (JObj (Some (UserClass 2)) (Text ''Validation error'')),
        example_env\<lparr>world := 1, trace := [Invoke 1]\<rparr>)
   \<and> execute ((example_engine 3)\<lparr>skipErrors := [UserClass 2], onlyErrors := [UserClass 2]\<rparr>)
       throws_validation example_env
     = (Rejected (JObj (Some (UserClass 2)) (Text ''Validation error'')),
        (example_engine 3)\<lparr>skipErrors := [UserClass 2], onlyErrors := [UserClass 2]\<rparr>,
        example_env\<lparr>world := 1, trace := [Invoke 1]\<rparr>)"
proof -
  let ?g = "(example_engine 3)\<lparr>skipErrors := [UserClass 2], onlyErrors := [UserClass 2]\<rparr>"
  have tried: "execute_try ?g throws_validation example_env
     = (Rejected (JObj (Some (UserClass 2)) (Text ''Validation error'')),
        example_env\<lparr>world := 1, trace := [Invoke 1]\<rparr>)"
    by (simp add: execute_try_def call_eq throws_validation_def example_engine_def example_env_def)
  have budget: "int (retries ?g) < retryCount ?g" by (simp add: example_engine_def)
  have skip: "UserClass 2 \<in> set (skipErrors ?g)" by simp
  show ?thesis
    using skipErrors_before_onlyErrors [OF tried budget skip] tried by simp
qed

text \<open>
  C7. With a non-empty \<^verbatim>\<open>onlyErrors\<close> and a retry count above 0, a first attempt that
  fails with an error whose class is not in \<^verbatim>\<open>onlyErrors\<close> ends the run with that error:
  no retry is counted, there is no wait and no call of the fallback, and the operation
  has been called at most once.
\<close>

theorem onlyErrors_other_class_not_retried:
  assumes "new_Grit props (arrays e) = Inr g" and "0 < retryCount g"
    and "onlyErrors g \<noteq> []" and "c \<notin> set (onlyErrors g)"
    and "execute_try g fn e = (Rejected (JObj (Some c) m), e1)"
  shows "attempt g fn e = (Rejected (JObj (Some c) m), g, e1)
     \<and> retries g = 0
     \<and> waits (trace e1) = waits (trace e)
     \<and> fallback_calls (trace e1) = fallback_calls (trace e)
     \<and> (trace e1 = trace e \<or> trace e1 = trace e @ [Invoke 1])"
proof -
  have fresh: "attempts g = 1" "retries g = 0"
    using assms(1) by (rule new_Grit_fields)+
  have "rethrown g (JObj (Some c) m)" using assms(3,4) by (rule nonmember_rethrown_only)
  moreover have "int (retries g) < retryCount g" using assms(2) fresh by simp
  ultimately have "execute g fn e = (Rejected (JObj (Some c) m), g, e1)"
    using assms(5) by (intro execute_rethrown)
  then show ?thesis
    using execute_try_waits [of g fn e] execute_try_fallback_calls [of g fn e]
      execute_try_invokes_at_most_once [of g fn e] assms(5) fresh by (simp add: attempt_def)
qed

theorem onlyErrors_other_class_not_retried_witness:
  "new_Grit ((example_props 3)\<lparr>props_onlyErrors := Some [UserClass 0, UserClass 1]\<rparr>) (arrays example_env)
     = Inr ((example_engine 3)\<lparr>onlyErrors := [UserClass 0, UserClass 1]\<rparr>)
   \<and> attempt ((example_engine 3)\<lparr>onlyErrors := [UserClass 0, UserClass 1]\<rparr>)
       throws_validation example_env
     = (Rejected (JObj (Some (UserClass 2)) (Text ''Validation error'')),
        (example_engine 3)\<lparr>onlyErrors := [UserClass 0, UserClass 1]\<rparr>,
        example_env\<lparr>world := 1, trace := [Invoke 1]\<rparr>)"
proof -
  let ?g = "(example_engine 3)\<lparr>onlyErrors := [UserClass 0, UserClass 1]\<rparr>"
  have built: "new_Grit ((example_props 3)\<lparr>props_onlyErrors := Some [UserClass 0, UserClass 1]\<rparr>)
      (arrays example_env) = Inr ?g"
    by (simp add: new_Grit_def example_props_def example_engine_def)
  have rc: "0 < retryCount ?g" by (simp add: example_engine_def)
  have only: "onlyErrors ?g \<noteq> []" "UserClass 2 \<notin> set (onlyErrors ?g)" by simp_all
  have tried: "execute_try ?g throws_validation example_env
     = (Rejected (JObj (Some (UserClass 2)) (Text ''Validation error'')),
        example_env\<lparr>world := 1, trace := [Invoke 1]\<rparr>)"
    by (simp add: execute_try_def call_eq throws_validation_def example_engine_def example_env_def)
  show ?thesis
    using onlyErrors_other_class_not_retried [OF built rc only tried] built by simp
qed

text \<open>
  C9. Under a timeout policy whose cancellation signal is already aborted when an attempt
  starts, the attempt does not call the operation (the environment stays as it is: the
  world and the trace are untouched) and fails with the signal's reason, or with the
  generic abort error when the reason is null or undefined.
\<close>

theorem aborted_signal_skips_operation:
  assumes "timeout g = Some (TimeoutObject t m (Some s))" and "aborted (s (world e))"
  shows "execute_try g fn e =
      (Rejected (if reason (s (world e)) = JNull \<or> reason (s (world e)) = JUndefined
                 then JObj (Some DOMExceptionClass) (Text ''This operation was aborted.'')
                 else reason (s (world e))), e)"
  using assms by (simp add: execute_try_def withTimeout_def getAbortedReason_def AbortError_def)

theorem aborted_signal_skips_operation_witness:
  "aborted (aborted_signal (world example_env))
   \<and> execute_try ((example_engine 1)\<lparr>timeout := Some (TimeoutObject 500 None (Some aborted_signal))\<rparr>)
       flaky example_env
     = (Rejected (JObj (Some DOMExceptionClass) (Text ''This operation was aborted.'')), example_env)"
proof -
  let ?g = "(example_engine 1)\<lparr>timeout := Some (TimeoutObject 500 None (Some aborted_signal))\<rparr>"
  have t: "timeout ?g = Some (TimeoutObject 500 None (Some aborted_signal))" by simp
  have a: "aborted (aborted_signal (world example_env))" by (simp add: aborted_signal_def)
  show ?thesis
    using aborted_signal_skips_operation [OF t a, of flaky] a by (simp add: aborted_signal_def)
qed

text \<open>
  C2. \<^verbatim>\<open>safeAttempt\<close> never rejects, whatever the configuration and the operation: when
  the run ends in a value it resolves to \<^verbatim>\<open>{result: value, error: null}\<close>, when the run
  ends in an error it resolves to \<^verbatim>\<open>{result: null, error: value}\<close>. It does resolve, to
  a pair with one of the two fields null, as soon as every attempt settles (the operation
  always settles or a timeout is set) and the fallback, if there is one, settles.
\<close>

theorem safeAttempt_never_rejects:
  "(\<forall>x. fst (safeAttempt g fn e) \<noteq> Rejected x)
   \<and> (\<forall>v. fst (attempt g fn e) = Resolved v \<longrightarrow>
          fst (safeAttempt g fn e) = Resolved \<lparr>result = v, error = JNull\<rparr>)
   \<and> (\<forall>err. fst (attempt g fn e) = Rejected err \<longrightarrow>
          fst (safeAttempt g fn e) = Resolved \<lparr>result = JNull, error = err\<rparr>)
   \<and> ((timeout_truthy (timeout g) \<or> (\<forall>a w. fst (fn a w) \<noteq> Pending))
        \<and> (\<forall>fb err a w. fallback g = Some fb \<longrightarrow> fst (fb err a w) \<noteq> Pending)
      \<longrightarrow> (\<exists>r. fst (safeAttempt g fn e) = Resolved r \<and> (error r = JNull \<or> result r = JNull)))"
proof -
  obtain p g1 e1 where run: "execute g fn e = (p, g1, e1)" by (cases "execute g fn e") auto
  have a: "\<forall>x. fst (safeAttempt g fn e) \<noteq> Rejected x"
    by (cases p) (simp_all add: safeAttempt_def run)
  have b: "\<forall>v. fst (attempt g fn e) = Resolved v \<longrightarrow>
          fst (safeAttempt g fn e) = Resolved \<lparr>result = v, error = JNull\<rparr>"
    by (cases p) (simp_all add: safeAttempt_def attempt_def run)
  have c: "\<forall>err. fst (attempt g fn e) = Rejected err \<longrightarrow>
          fst (safeAttempt g fn e) = Resolved \<lparr>result = JNull, error = err\<rparr>"
    by (cases p) (simp_all add: safeAttempt_def attempt_def run)
  have d: "\<exists>r. fst (safeAttempt g fn e) = Resolved r \<and> (error r = JNull \<or> result r = JNull)"
    if "timeout_truthy (timeout g) \<or> (\<forall>a w. fst (fn a w) \<noteq> Pending)"
      and "\<forall>fb err a w. fallback g = Some fb \<longrightarrow> fst (fb err a w) \<noteq> Pending"
  proof -
    have "fst (execute g fn e) \<noteq> Pending" using that by (rule execute_settles)
    then have "p \<noteq> Pending" by (simp add: run)
    then show ?thesis by (cases p) (simp_all add: safeAttempt_def run)
  qed
  from a b c d show ?thesis by blast
qed

theorem safeAttempt_never_rejects_witness:
  "fst (attempt (example_engine 1) always_failing example_env) =
      Rejected (JObj (Some ErrorClass) (Text ''Always fails''))
   \<and> fst (safeAttempt (example_engine 1) always_failing example_env) =
      Resolved \<lparr>result = JNull, error = JObj (Some ErrorClass) (Text ''Always fails'')\<rparr>
   \<and> fst (attempt (example_engine 3) flaky example_env) = Resolved (JStr ''success'')
   \<and> fst (safeAttempt (example_engine 3) flaky example_env) =
      Resolved \<lparr>result = JStr ''success'', error = JNull\<rparr>"
proof -
  have fails: "fst (attempt (example_engine 1) always_failing example_env) =
      Rejected (JObj (Some ErrorClass) (Text ''Always fails''))"
    by (simp add: attempt_def execute.simps execute_try_def call_eq always_failing_def
        example_engine_def example_env_def rethrown_def retried_def)
  have wins: "fst (attempt (example_engine 3) flaky example_env) = Resolved (JStr ''success'')"
    by (simp add: attempt_def execute.simps execute_try_def call_eq flaky_def
        example_engine_def example_env_def rethrown_def retried_def)
  have settles: "timeout_truthy (timeout (example_engine 1)) \<or> (\<forall>a w. fst (always_failing a w) \<noteq> Pending)"
    "\<forall>fb err a w. fallback (example_engine 1) = Some fb \<longrightarrow> fst (fb err a w) \<noteq> Pending"
    by (simp_all add: always_failing_def example_engine_def)
  show ?thesis
    using safeAttempt_never_rejects [of "example_engine 1" always_failing example_env]
      safeAttempt_never_rejects [of "example_engine 3" flaky example_env]
      fails wins settles
    by simp
qed

text \<open>
  C10. The builder hands its delay array to every engine by reference: the engine's
  \<^verbatim>\<open>delay\<close> is the builder's array itself, and a run leaves that array without its first
  entries, one for each retry. So once a first \<^verbatim>\<open>attempt\<close> on a builder has consumed an
  entry, the next \<^verbatim>\<open>attempt\<close> or \<^verbatim>\<open>safeAttempt\<close> on the same builder throws the
  configuration error of the length check when it constructs its engine.
\<close>

theorem shared_delay_array_breaks_reuse:
  assumes "b_delay b = Some (DelayArray a)"
    and "build b (arrays e) = Inr g"
    and "attempt g fn e = (p, g', e')"
  shows "delay g = Some (DelayArray a)
     \<and> builder_attempt b fn e = (Inr p, e')
     \<and> arrays e' a = drop (retries g') (arrays e a)
     \<and> (arrays e' a \<noteq> arrays e a \<longrightarrow>
          builder_attempt b fn2 e' =
            (Inl (GritError ''Delay array length must be equal to retry count''), e')
        \<and> builder_safeAttempt b fn2 e' =
            (Inl (GritError ''Delay array length must be equal to retry count''), e'))"
proof -
  have dl: "delay g = Some (DelayArray a)"
    using build_fields(1) [OF assms(2)] assms(1) by simp
  have valid: "validateGritConfig (Some (retryCount g)) (Some (DelayArray a)) (b_timeout b) (arrays e) = Inr ()"
    using build_fields(4) [OF assms(2)] assms(1) by simp
  then have len: "int (length (arrays e a)) = retryCount g"
    and pos: "\<forall>x \<in> set (arrays e a). 0 < x"
    by (auto simp: list_ex_iff not_le split: if_splits)
  have r0: "retries g = 0" using assms(2) by (rule build_fields)
  have ok: "delay_ok g e" using dl len pos r0 by (simp add: delay_ok_def delays_never_vanish_def)
  have first: "builder_attempt b fn e = (Inr p, e')"
    using assms(2,3) by (simp add: builder_attempt_def)
  have shifted: "arrays e' a = drop (retries g') (arrays e a)"
    using execute_shifts_array [OF dl ok, of fn] assms(3) r0 by (simp add: attempt_def)
  have second: "builder_attempt b fn2 e' =
            (Inl (GritError ''Delay array length must be equal to retry count''), e')
        \<and> builder_safeAttempt b fn2 e' =
            (Inl (GritError ''Delay array length must be equal to retry count''), e')"
    if changed: "arrays e' a \<noteq> arrays e a"
  proof -
    from changed shifted have "length (arrays e' a) < length (arrays e a)"
      by (cases "retries g'"; cases "arrays e a") auto
    with len have "int (length (arrays e' a)) \<noteq> retryCount g" by simp
    with build_fields(2) [OF assms(2)] assms(1)
    have "build b (arrays e') = Inl (GritError ''Delay array length must be equal to retry count'')"
      by (intro build_array_mismatch) simp_all
    then show ?thesis by (simp add: builder_attempt_def builder_safeAttempt_def)
  qed
  from dl first shifted second show ?thesis by blast
qed

theorem shared_delay_array_breaks_reuse_witness:
  "build (withDelay (DelayArray 0) (retry 2)) (arrays example_env)
     = Inr ((example_engine 2)\<lparr>delay := Some (DelayArray 0)\<rparr>)
   \<and> builder_attempt (withDelay (DelayArray 0) (retry 2)) flaky example_env
     = (Inr (Resolved (JStr ''success'')),
        example_env\<lparr>arrays := (\<lambda>a. []), world := 3,
           trace := [Invoke 1, Wait 200, Invoke 2, Wait 300, Invoke 3]\<rparr>)
   \<and> builder_attempt (withDelay (DelayArray 0) (retry 2)) always_failing
        (example_env\<lparr>arrays := (\<lambda>a. []), world := 3,
           trace := [Invoke 1, Wait 200, Invoke 2, Wait 300, Invoke 3]\<rparr>)
     = (Inl (GritError ''Delay array length must be equal to retry count''),
        example_env\<lparr>arrays := (\<lambda>a. []), world := 3,
           trace := [Invoke 1, Wait 200, Invoke 2, Wait 300, Invoke 3]\<rparr>)
   \<and> builder_safeAttempt (withDelay (DelayArray 0) (retry 2)) always_failing
        (example_env\<lparr>arrays := (\<lambda>a. []), world := 3,
           trace := [Invoke 1, Wait 200, Invoke 2, Wait 300, Invoke 3]\<rparr>)
     = (Inl (GritError ''Delay array length must be equal to retry count''),
        example_env\<lparr>arrays := (\<lambda>a. []), world := 3,
           trace := [Invoke 1, Wait 200, Invoke 2, Wait 300, Invoke 3]\<rparr>)"
proof -
  let ?b = "withDelay (DelayArray 0) (retry 2) :: nat grit_builder"
  let ?g = "(example_engine 2)\<lparr>delay := Some (DelayArray 0)\<rparr>"
  let ?e' = "example_env\<lparr>arrays := (\<lambda>a. []), world := 3,
           trace := [Invoke 1, Wait 200, Invoke 2, Wait 300, Invoke 3]\<rparr>"
  have dl: "b_delay ?b = Some (DelayArray 0)" by (simp add: withDelay_def)
  have built: "build ?b (arrays example_env) = Inr ?g"
    by (simp add: build_def new_Grit_def withDelay_def retry_def example_engine_def example_env_def)
  have run: "attempt ?g flaky example_env =
     (Resolved (JStr ''success''),
      (example_engine 2)\<lparr>delay := Some (DelayArray 0), attempts := 3, retries := 2\<rparr>, ?e')"
    by (simp add: attempt_def execute.simps execute_try_def call_eq flaky_def backoff_def
      currentDelay_def raw_delay_def
      example_engine_def example_env_def rethrown_def retried_def fun_eq_iff)
  have changed: "arrays ?e' 0 \<noteq> arrays example_env 0" by (simp add: example_env_def)
  show ?thesis
    using shared_delay_array_breaks_reuse [OF dl built run, of always_failing] changed built
    by simp
qed

end
